theory Spec2Isabelle
  imports Main
begin

section \<open>Strings of the host language\<close>

text \<open>
  A string is a list of characters with the codes 0 to 255, each a code unit of the
  host's string; a string with a code unit above 255 has no counterpart here. The three
  string methods used by the client are \<^verbatim>\<open>s.startsWith("/")\<close>, \<^verbatim>\<open>s.endsWith("/")\<close> and
  \<^verbatim>\<open>s.slice(1)\<close>.
\<close>

definition startsWith :: "string \<Rightarrow> string \<Rightarrow> bool" where
  "startsWith s p = (take (length p) s = p)"

definition endsWith :: "string \<Rightarrow> string \<Rightarrow> bool" where
  "endsWith s p = (drop (length s - length p) s = p \<and> length p \<le> length s)"

definition slice :: "nat \<Rightarrow> string \<Rightarrow> string" where
  "slice n s = drop n s"

fun intercalate :: "string \<Rightarrow> string list \<Rightarrow> string" where
  "intercalate sep [] = []"
| "intercalate sep [x] = x"
| "intercalate sep (x # y # ys) = x @ sep @ intercalate sep (y # ys)"

definition lower_char :: "char \<Rightarrow> char" where
  "lower_char c =
     (if 0x41 \<le> (of_char c :: nat) \<and> (of_char c :: nat) \<le> 0x5A
      then char_of ((of_char c :: nat) + 32) else c)"

definition lower :: "string \<Rightarrow> string" where
  "lower s = map lower_char s"

definition hex_digit :: "nat \<Rightarrow> char" where
  "hex_digit d = ''0123456789ABCDEF'' ! d"

text \<open>
  Percent-encoding writes a character as the bytes of its UTF-8 encoding, one byte for
  a code below 128 and two bytes above, and each byte as \<^verbatim>\<open>%\<close> and two upper-case
  hexadecimal digits.
\<close>

definition utf8_bytes :: "char \<Rightarrow> nat list" where
  "utf8_bytes c =
     (let n = (of_char c :: nat) in
      if n < 0x80 then [n] else [0xC0 + n div 64, 0x80 + n mod 64])"

definition percent_byte :: "nat \<Rightarrow> string" where
  "percent_byte n = [CHR ''%'', hex_digit (n div 16), hex_digit (n mod 16)]"

definition percent_encode :: "char \<Rightarrow> string" where
  "percent_encode c = concat (map percent_byte (utf8_bytes c))"

definition backslash :: char where
  "backslash = CHR 0x5C"

section \<open>Numbers\<close>

text \<open>
  The numbers in a JSON value are, in the model, the integers that the host language
  holds exactly and writes digit by digit, those of magnitude below \<open>2\<^sup>5\<^sup>3\<close>; fractions,
  larger numbers, \<^verbatim>\<open>NaN\<close> and the infinities are not among them. \<open>toString\<close> is the decimal
  writing that \<^verbatim>\<open>toString()\<close>, a template literal and \<^verbatim>\<open>JSON.stringify\<close> give for such a
  number. The numbers given to the list operations are not bound to this type.
\<close>

typedef safe_integer = "{i :: int. - 9007199254740992 < i \<and> i < 9007199254740992}"
  morphisms int_of safe
  by (rule exI [of _ 0]) simp

definition digit_char :: "nat \<Rightarrow> char" where
  "digit_char d = ''0123456789'' ! d"

fun digits :: "nat \<Rightarrow> string" where
  "digits n = (if n < 10 then [digit_char n] else digits (n div 10) @ [digit_char (n mod 10)])"

definition toString :: "safe_integer \<Rightarrow> string" where
  "toString n =
     (if int_of n < 0 then CHR ''-'' # digits (nat (- int_of n)) else digits (nat (int_of n)))"

section \<open>The URL object and the store\<close>

text \<open>
  A URL is an object of the platform, held by reference: the client keeps one in
  \<^verbatim>\<open>baseUrl\<close> and every request built from the client points at the same object.
  The store maps a reference to the URL it holds. The URLs are those of the schemes
  \<^verbatim>\<open>http\<close> and \<^verbatim>\<open>https\<close>. Of a URL the client touches the \<^verbatim>\<open>pathname\<close> and the
  \<^verbatim>\<open>search\<close> component; the rest (scheme, host, port) is \<open>origin\<close>.
\<close>

record URL =
  origin :: string
  pathname :: string
  query :: string

type_synonym ref = nat
type_synonym store = "ref \<Rightarrow> URL"

definition all_refs :: "URL \<Rightarrow> store" where
  "all_refs u = (\<lambda>r. u)"

subsection \<open>The pathname setter\<close>

text \<open>
  Assigning to \<^verbatim>\<open>pathname\<close> runs the URL parser of the URL Standard on the assigned
  string, starting in its path start state. The parser drops every tab and newline,
  skips one leading slash or backslash, and cuts the rest into segments at every slash
  and backslash. In a segment it percent-encodes the characters of the path
  percent-encode set (controls, space, \<^verbatim>\<open>" # < > ? ^ ` { }\<close> and every character
  above \<^verbatim>\<open>~\<close>). A segment \<^verbatim>\<open>..\<close> (also written with \<^verbatim>\<open>%2e\<close>) removes the segment before it, a
  segment \<^verbatim>\<open>.\<close> is left out, and either of them at the very end leaves an empty last
  segment. The path is then written with a slash before every segment.
\<close>

definition tab_or_newline :: "char \<Rightarrow> bool" where
  "tab_or_newline c = (c = CHR 0x09 \<or> c = CHR 0x0A \<or> c = CHR 0x0D)"

definition path_percent_encode_set :: "char \<Rightarrow> bool" where
  "path_percent_encode_set c =
     (let n = (of_char c :: nat) in
      n \<le> 0x1F \<or> 0x7F \<le> n \<or> n = 0x20 \<or> n = 0x22 \<or> n = 0x23 \<or> n = 0x3C \<or> n = 0x3E \<or>
      n = 0x3F \<or> n = 0x5E \<or> n = 0x60 \<or> n = 0x7B \<or> n = 0x7D)"

definition path_encode :: "string \<Rightarrow> string" where
  "path_encode seg =
     concat (map (\<lambda>c. if path_percent_encode_set c then percent_encode c else [c]) seg)"

definition is_separator :: "char \<Rightarrow> bool" where
  "is_separator c = (c = CHR ''/'' \<or> c = backslash)"

fun segments :: "string \<Rightarrow> string list" where
  "segments [] = [[]]"
| "segments (x # xs) =
     (if is_separator x then [] # segments xs
      else (case segments xs of [] \<Rightarrow> [[x]] | w # ws \<Rightarrow> (x # w) # ws))"

definition single_dot :: "string \<Rightarrow> bool" where
  "single_dot seg = (lower seg = ''.'' \<or> lower seg = ''%2e'')"

definition double_dot :: "string \<Rightarrow> bool" where
  "double_dot seg =
     (lower seg = ''..'' \<or> lower seg = ''.%2e'' \<or> lower seg = ''%2e.'' \<or> lower seg = ''%2e%2e'')"

fun path_state :: "string list \<Rightarrow> string list \<Rightarrow> string list" where
  "path_state path [] = path"
| "path_state path (seg # rest) =
     (if double_dot seg
      then path_state (butlast path @ (if rest = [] then [[]] else [])) rest
      else if single_dot seg
      then path_state (path @ (if rest = [] then [[]] else [])) rest
      else path_state (path @ [seg]) rest)"

definition parse_path :: "string \<Rightarrow> string" where
  "parse_path v =
     (let s = filter (\<lambda>c. \<not> tab_or_newline c) v;
          t = (if s \<noteq> [] \<and> is_separator (hd s) then tl s else s)
      in concat (map (\<lambda>seg. CHR ''/'' # seg) (path_state [] (map path_encode (segments t)))))"

definition set_pathname :: "string \<Rightarrow> URL \<Rightarrow> URL" where
  "set_pathname p u = u\<lparr>pathname := parse_path p\<rparr>"

text \<open>
  A path of plain segments: it starts with a slash, has no character that the parser
  drops, turns or encodes, and none of its segments is a dot segment. The parser leaves
  such a path as it is.
\<close>

definition plain_path :: "string \<Rightarrow> bool" where
  "plain_path s =
     (startsWith s ''/''
      \<and> list_all (\<lambda>c. \<not> path_percent_encode_set c \<and> c \<noteq> backslash) s
      \<and> list_all (\<lambda>seg. \<not> single_dot seg \<and> \<not> double_dot seg) (segments (tl s)))"

subsection \<open>The search setter and getter\<close>

text \<open>
  Assigning the empty string to \<^verbatim>\<open>search\<close> removes the query. Any other string loses one
  leading \<^verbatim>\<open>?\<close> and its tabs and newlines, and is stored with the characters of the
  query percent-encode set of these schemes (controls, space, \<^verbatim>\<open>" # < > '\<close> and every
  character above \<^verbatim>\<open>~\<close>) percent-encoded. \<^verbatim>\<open>search\<close> reads as the query behind a \<^verbatim>\<open>?\<close>, or as
  the empty string when the query is missing or empty.
\<close>

definition query_percent_encode_set :: "char \<Rightarrow> bool" where
  "query_percent_encode_set c =
     (let n = (of_char c :: nat) in
      n \<le> 0x1F \<or> 0x7F \<le> n \<or> n = 0x20 \<or> n = 0x22 \<or> n = 0x23 \<or> n = 0x3C \<or> n = 0x3E \<or>
      n = 0x27)"

definition query_encode :: "string \<Rightarrow> string" where
  "query_encode s =
     concat (map (\<lambda>c. if query_percent_encode_set c then percent_encode c else [c])
               (filter (\<lambda>c. \<not> tab_or_newline c) s))"

definition set_search :: "string \<Rightarrow> URL \<Rightarrow> URL" where
  "set_search s u =
     u\<lparr>query := query_encode (if startsWith s ''?'' then slice 1 s else s)\<rparr>"

definition search :: "URL \<Rightarrow> string" where
  "search u = (if query u = [] then [] else CHR ''?'' # query u)"

definition href :: "URL \<Rightarrow> string" where
  "href u = origin u @ pathname u @ search u"

section \<open>The URL composer\<close>

text \<open>
  \<^verbatim>\<open>
  public static concatUrl(baseUrl: URL, path: string) {
      baseUrl.pathname = baseUrl.pathname + (baseUrl.pathname.endsWith("/") && path.startsWith("/") ? path.slice(1) : path);
      return baseUrl;
  }
  \<close>
  \<open>concatPath\<close> is the string on the right of the assignment. The assignment writes
  through the reference, by the pathname setter; the reference itself is returned.
\<close>

definition concatPath :: "string \<Rightarrow> string \<Rightarrow> string" where
  "concatPath base path =
     base @ (if endsWith base ''/'' \<and> startsWith path ''/'' then slice 1 path else path)"

definition concatUrl :: "ref \<Rightarrow> string \<Rightarrow> store \<Rightarrow> ref \<times> store" where
  "concatUrl baseUrl path h =
     (baseUrl, h(baseUrl := set_pathname (concatPath (pathname (h baseUrl)) path) (h baseUrl)))"

text \<open>
  The contract in the specification's words: the base's path and the relative path with
  exactly one slash between them, never none and never two, whichever side supplies
  it. The slashes a side brings to the junction are those at the end of the base's path
  and those at the start of the relative path.
\<close>

definition trailing_slashes :: "string \<Rightarrow> nat" where
  "trailing_slashes s = length (takeWhile (\<lambda>c. c = CHR ''/'') (rev s))"

definition leading_slashes :: "string \<Rightarrow> nat" where
  "leading_slashes s = length (takeWhile (\<lambda>c. c = CHR ''/'') s)"

definition joinOneSlash :: "string \<Rightarrow> string \<Rightarrow> string" where
  "joinOneSlash base path =
     rev (dropWhile (\<lambda>c. c = CHR ''/'') (rev base)) @ ''/'' @ dropWhile (\<lambda>c. c = CHR ''/'') path"

section \<open>Query parameters\<close>

text \<open>
  \<^verbatim>\<open>URLSearchParams\<close> is an ordered list of name/value pairs. \<^verbatim>\<open>append\<close> adds a pair at
  the end; \<^verbatim>\<open>set\<close> overwrites the first pair of that name and removes the others, or
  appends when there is none. \<^verbatim>\<open>toString\<close> writes \<^verbatim>\<open>name=value\<close> pairs joined by \<^verbatim>\<open>&\<close>,
  every name and value in the form-urlencoded encoding: a space becomes \<^verbatim>\<open>+\<close>,
  letters, digits and \<^verbatim>\<open>* - . _\<close> stay, any other character is percent-encoded.
\<close>

type_synonym URLSearchParams = "(string \<times> string) list"

definition usp_append :: "string \<Rightarrow> string \<Rightarrow> URLSearchParams \<Rightarrow> URLSearchParams" where
  "usp_append name v ps = ps @ [(name, v)]"

fun usp_set :: "string \<Rightarrow> string \<Rightarrow> URLSearchParams \<Rightarrow> URLSearchParams" where
  "usp_set name v [] = [(name, v)]"
| "usp_set name v ((k, w) # ps) =
     (if k = name then (name, v) # filter (\<lambda>kv. fst kv \<noteq> name) ps
      else (k, w) # usp_set name v ps)"

definition urlencoded_safe :: "char \<Rightarrow> bool" where
  "urlencoded_safe c =
     (let n = (of_char c :: nat) in
      n = 0x2A \<or> n = 0x2D \<or> n = 0x2E \<or> (0x30 \<le> n \<and> n \<le> 0x39) \<or>
      (0x41 \<le> n \<and> n \<le> 0x5A) \<or> n = 0x5F \<or> (0x61 \<le> n \<and> n \<le> 0x7A))"

definition urlencode_byte :: "char \<Rightarrow> string" where
  "urlencode_byte c =
     (if c = CHR '' '' then ''+'' else if urlencoded_safe c then [c] else percent_encode c)"

definition urlencode :: "string \<Rightarrow> string" where
  "urlencode s = concat (map urlencode_byte s)"

definition usp_pair :: "string \<times> string \<Rightarrow> string" where
  "usp_pair kv = urlencode (fst kv) @ ''='' @ urlencode (snd kv)"

definition usp_toString :: "URLSearchParams \<Rightarrow> string" where
  "usp_toString ps = intercalate ''&'' (map usp_pair ps)"

text \<open>
  Reading a query string back: its parameters are the pieces between \<^verbatim>\<open>&\<close>, and the
  (encoded) name of a parameter is what stands before its first \<^verbatim>\<open>=\<close>.
\<close>

fun split_on :: "char \<Rightarrow> string \<Rightarrow> string list" where
  "split_on c [] = [[]]"
| "split_on c (x # xs) =
     (if x = c then [] # split_on c xs
      else (case split_on c xs of [] \<Rightarrow> [[x]] | w # ws \<Rightarrow> (x # w) # ws))"

definition query_keys :: "string \<Rightarrow> string list" where
  "query_keys q = (if q = [] then [] else map (takeWhile (\<lambda>c. c \<noteq> CHR ''='')) (split_on CHR ''&'' q))"

section \<open>Headers\<close>

text \<open>
  \<^verbatim>\<open>Headers\<close> is a list of name/value pairs whose names compare without regard to
  ASCII case; the model keeps every name in lower case. A name must be a token of HTTP.
  A value is first normalised, that is stripped of the white space (tab, line feed,
  carriage return, space) at its two ends, and must then hold no NUL, line feed or
  carriage return. The methods that take a name or a value throw a \<^verbatim>\<open>TypeError\<close> on one
  that is not valid.
\<close>

type_synonym Headers = "(string \<times> string) list"
type_synonym HeadersInit = "(string \<times> string) list"

definition http_whitespace :: "char \<Rightarrow> bool" where
  "http_whitespace c = (c = CHR 0x09 \<or> c = CHR 0x0A \<or> c = CHR 0x0D \<or> c = CHR 0x20)"

definition normalize_value :: "string \<Rightarrow> string" where
  "normalize_value v = rev (dropWhile http_whitespace (rev (dropWhile http_whitespace v)))"

definition token_char :: "char \<Rightarrow> bool" where
  "token_char c =
     (let n = (of_char c :: nat) in
      (0x30 \<le> n \<and> n \<le> 0x39) \<or> (0x41 \<le> n \<and> n \<le> 0x5A) \<or> (0x61 \<le> n \<and> n \<le> 0x7A) \<or>
      n = 0x21 \<or> n = 0x23 \<or> n = 0x24 \<or> n = 0x25 \<or> n = 0x26 \<or> n = 0x27 \<or> n = 0x2A \<or>
      n = 0x2B \<or> n = 0x2D \<or> n = 0x2E \<or> n = 0x5E \<or> n = 0x5F \<or> n = 0x60 \<or> n = 0x7C \<or>
      n = 0x7E)"

definition is_header_name :: "string \<Rightarrow> bool" where
  "is_header_name name = (name \<noteq> [] \<and> list_all token_char name)"

definition is_header_value :: "string \<Rightarrow> bool" where
  "is_header_value v =
     (list_all (\<lambda>c. c \<noteq> CHR 0x00 \<and> c \<noteq> CHR 0x0A \<and> c \<noteq> CHR 0x0D) v
      \<and> (v \<noteq> [] \<longrightarrow> hd v \<noteq> CHR 0x09 \<and> hd v \<noteq> CHR 0x20 \<and> last v \<noteq> CHR 0x09 \<and> last v \<noteq> CHR 0x20))"

section \<open>JSON values\<close>

text \<open>
  The value \<^verbatim>\<open>res.json()\<close> resolves to. An object is the list of its own properties in
  order.
\<close>

datatype json =
    JNull
  | JBool bool
  | JNum safe_integer
  | JStr string
  | JArr "json list"
  | JObj "(string \<times> json) list"

section \<open>Requests, responses and what is thrown\<close>

text \<open>
  The classes of the client, field by field. A request holds the reference to its URL,
  not a copy. Of the platform's \<^verbatim>\<open>Response\<close> the client reads \<^verbatim>\<open>ok\<close>, \<^verbatim>\<open>status\<close> and
  \<^verbatim>\<open>json()\<close>, which is \<open>None\<close> when the body is not JSON text.

  Three fields change their name here: the \<^verbatim>\<open>body\<close> of a \<^verbatim>\<open>Body\<close> is \<open>payload\<close>, the
  \<^verbatim>\<open>body\<close> of a request is \<open>reqBody\<close> and its \<^verbatim>\<open>method\<close> is \<open>req_method\<close>; \<open>body\<close> is
  the decoded body of a response envelope.
\<close>

record ApiClient =
  baseUrl :: ref

record Body =
  contentType :: string
  payload :: string

record ApiRequest =
  api :: ApiClient
  url :: ref
  headers :: Headers
  req_method :: string
  reqBody :: "Body option"

record Response =
  ok :: bool
  status :: nat
  json :: "json option"

record ApiResponse =
  req :: ApiRequest
  res :: Response
  body :: json

text \<open>
  \<^verbatim>\<open>ApiError\<close> carries the response envelope and the message given to \<^verbatim>\<open>super\<close>;
  \<^verbatim>\<open>Error\<close> carries its message. The others are the platform's own.
\<close>

datatype js_error =
    ApiError ApiResponse string
  | Error string
  | TypeError
  | SyntaxError
  | NetworkError

section \<open>The methods of Headers\<close>

text \<open>
  \<^verbatim>\<open>new Headers(init)\<close> appends the pairs of \<^verbatim>\<open>init\<close> one by one and throws at the first
  that is not valid. \<^verbatim>\<open>set\<close> overwrites the first pair of that name and removes the
  others, or appends when there is none. \<^verbatim>\<open>get\<close> joins the values of a name with a
  comma and a space, and gives \<^verbatim>\<open>null\<close> when there is none.
\<close>

definition Headers_append :: "string \<Rightarrow> string \<Rightarrow> Headers \<Rightarrow> js_error + Headers" where
  "Headers_append name v hs =
     (let w = normalize_value v in
      if is_header_name name \<and> is_header_value w then Inr (hs @ [(lower name, w)])
      else Inl TypeError)"

fun Headers_fill :: "HeadersInit \<Rightarrow> Headers \<Rightarrow> js_error + Headers" where
  "Headers_fill [] hs = Inr hs"
| "Headers_fill (kv # rest) hs =
     (case Headers_append (fst kv) (snd kv) hs of
        Inl e \<Rightarrow> Inl e
      | Inr hs1 \<Rightarrow> Headers_fill rest hs1)"

definition Headers_new :: "HeadersInit \<Rightarrow> js_error + Headers" where
  "Headers_new init = Headers_fill init []"

definition Headers_delete :: "string \<Rightarrow> Headers \<Rightarrow> js_error + Headers" where
  "Headers_delete name hs =
     (if is_header_name name then Inr (filter (\<lambda>kv. fst kv \<noteq> lower name) hs)
      else Inl TypeError)"

fun set_first :: "string \<Rightarrow> string \<Rightarrow> Headers \<Rightarrow> Headers" where
  "set_first name v [] = [(name, v)]"
| "set_first name v ((k, w) # hs) =
     (if k = name then (name, v) # filter (\<lambda>kv. fst kv \<noteq> name) hs
      else (k, w) # set_first name v hs)"

definition Headers_set :: "string \<Rightarrow> string \<Rightarrow> Headers \<Rightarrow> js_error + Headers" where
  "Headers_set name v hs =
     (let w = normalize_value v in
      if is_header_name name \<and> is_header_value w then Inr (set_first (lower name) w hs)
      else Inl TypeError)"

definition Headers_get :: "string \<Rightarrow> Headers \<Rightarrow> js_error + string option" where
  "Headers_get name hs =
     (if is_header_name name
      then Inr (case map snd (filter (\<lambda>kv. fst kv = lower name) hs) of
                  [] \<Rightarrow> None
                | v # vs \<Rightarrow> Some (intercalate '', '' (v # vs)))
      else Inl TypeError)"

section \<open>The operators applied to a body\<close>

text \<open>
  \<^verbatim>\<open>typeof\<close>; \<^verbatim>\<open>in\<close>, which throws a \<^verbatim>\<open>TypeError\<close> when its right operand is not an
  object; property access, which throws on \<^verbatim>\<open>null\<close> and \<^verbatim>\<open>undefined\<close>; the string
  conversion of the \<^verbatim>\<open>Error\<close> constructor; and \<^verbatim>\<open>JSON.stringify\<close>. \<^verbatim>\<open>undefined\<close> is
  \<open>None\<close>. The property names asked for by the client are \<^verbatim>\<open>error\<close> and \<^verbatim>\<open>message\<close>,
  which no array, primitive wrapper or built-in prototype has, so an array has neither
  and reading them off a primitive gives \<^verbatim>\<open>undefined\<close>.
\<close>

fun js_typeof :: "json \<Rightarrow> string" where
  "js_typeof JNull = ''object''"
| "js_typeof (JBool b) = ''boolean''"
| "js_typeof (JNum n) = ''number''"
| "js_typeof (JStr s) = ''string''"
| "js_typeof (JArr xs) = ''object''"
| "js_typeof (JObj kvs) = ''object''"

fun js_in :: "string \<Rightarrow> json option \<Rightarrow> js_error + bool" where
  "js_in k (Some (JObj kvs)) = Inr (k \<in> set (map fst kvs))"
| "js_in k (Some (JArr xs)) = Inr False"
| "js_in k v = Inl TypeError"

fun js_get :: "string \<Rightarrow> json option \<Rightarrow> js_error + json option" where
  "js_get k None = Inl TypeError"
| "js_get k (Some JNull) = Inl TypeError"
| "js_get k (Some (JObj kvs)) = Inr (map_of kvs k)"
| "js_get k (Some v) = Inr None"

definition dquote :: char where
  "dquote = CHR 0x22"

definition hex_lower :: "nat \<Rightarrow> char" where
  "hex_lower d = ''0123456789abcdef'' ! d"

definition quote_char :: "char \<Rightarrow> string" where
  "quote_char c =
     (let n = (of_char c :: nat) in
      if c = dquote then [backslash, dquote]
      else if c = backslash then [backslash, backslash]
      else if n = 0x08 then [backslash, CHR ''b'']
      else if n = 0x0C then [backslash, CHR ''f'']
      else if n = 0x0A then [backslash, CHR ''n'']
      else if n = 0x0D then [backslash, CHR ''r'']
      else if n = 0x09 then [backslash, CHR ''t'']
      else if n < 0x20 then [backslash, CHR ''u'', CHR ''0'', CHR ''0'', hex_lower (n div 16), hex_lower (n mod 16)]
      else [c])"

definition quoteJSON :: "string \<Rightarrow> string" where
  "quoteJSON s = dquote # concat (map quote_char s) @ [dquote]"

fun JSON_stringify :: "json \<Rightarrow> string" where
  "JSON_stringify JNull = ''null''"
| "JSON_stringify (JBool b) = (if b then ''true'' else ''false'')"
| "JSON_stringify (JNum n) = toString n"
| "JSON_stringify (JStr s) = quoteJSON s"
| "JSON_stringify (JArr xs) = ''['' @ intercalate '','' (map JSON_stringify xs) @ '']''"
| "JSON_stringify (JObj kvs) =
     ''{'' @ intercalate '','' (map (\<lambda>(k, v). quoteJSON k @ '':'' @ JSON_stringify v) kvs) @ ''}''"

fun js_ToString :: "json \<Rightarrow> string" where
  "js_ToString JNull = ''null''"
| "js_ToString (JBool b) = (if b then ''true'' else ''false'')"
| "js_ToString (JNum n) = toString n"
| "js_ToString (JStr s) = s"
| "js_ToString (JArr xs) = intercalate '','' (map (\<lambda>x. if x = JNull then [] else js_ToString x) xs)"
| "js_ToString (JObj kvs) = ''[object Object]''"

section \<open>The body encoder\<close>

text \<open>
  \<^verbatim>\<open>
  export class JsonBody extends Body {
      public constructor(json: any) {
          super("application/json", JSON.stringify(json));
      }
  }
  \<close>
\<close>

definition JsonBody :: "json \<Rightarrow> Body" where
  "JsonBody j = \<lparr>contentType = ''application/json'', payload = JSON_stringify j\<rparr>"

section \<open>The request descriptor\<close>

text \<open>
  \<^verbatim>\<open>
  public constructor(public readonly api: ApiClient, path: string, query: URLSearchParams = new URLSearchParams(),
                     headersInit: HeadersInit = {}, method = "GET", body?: ApiClient.Body) {
      this.url = ApiRequest.concatUrl(api.baseUrl, path);
      this.url.search = query.toString();
      this.headers = new Headers(headersInit);
      this.method = method;
      if (body !== undefined && method !== "GET" && method !== "HEAD") {
          this.headers.delete("content-type");
          this.headers.set("content-type", body.contentType);
          this.body = body;
      }
  }
  \<close>
  A missing \<^verbatim>\<open>body\<close> argument is \<open>None\<close>. The constructor writes to the store twice,
  through the composer and through the \<^verbatim>\<open>search\<close> setter, before it makes the headers:
  when \<^verbatim>\<open>Headers\<close> throws, the constructor throws and the store stays written.
\<close>

definition ApiRequest_new ::
  "ApiClient \<Rightarrow> string \<Rightarrow> URLSearchParams \<Rightarrow> HeadersInit \<Rightarrow> string \<Rightarrow> Body option \<Rightarrow> store
    \<Rightarrow> (js_error + ApiRequest) \<times> store" where
  "ApiRequest_new this_api path qry headersInit meth bdy h =
     (let (u, h1) = concatUrl (baseUrl this_api) path h;
          h2 = h1(u := set_search (usp_toString qry) (h1 u))
      in (case Headers_new headersInit of
            Inl e \<Rightarrow> (Inl e, h2)
          | Inr hs \<Rightarrow>
              (case bdy of
                 Some b \<Rightarrow>
                   if meth \<noteq> ''GET'' \<and> meth \<noteq> ''HEAD''
                   then (case Headers_delete ''content-type'' hs of
                           Inl e \<Rightarrow> (Inl e, h2)
                         | Inr hs1 \<Rightarrow>
                             (case Headers_set ''content-type'' (contentType b) hs1 of
                                Inl e \<Rightarrow> (Inl e, h2)
                              | Inr hs2 \<Rightarrow>
                                  (Inr \<lparr>api = this_api, url = u, headers = hs2,
                                        req_method = meth, reqBody = Some b\<rparr>, h2)))
                   else (Inr \<lparr>api = this_api, url = u, headers = hs, req_method = meth,
                              reqBody = None\<rparr>, h2)
               | None \<Rightarrow>
                   (Inr \<lparr>api = this_api, url = u, headers = hs, req_method = meth,
                         reqBody = None\<rparr>, h2))))"

text \<open>The defaults of the optional arguments.\<close>

definition no_query :: URLSearchParams where
  "no_query = []"

definition no_headers :: HeadersInit where
  "no_headers = []"

definition GET :: string where
  "GET = ''GET''"

section \<open>The transport invoker\<close>

text \<open>
  \<^verbatim>\<open>
  public async fetch() {
      return await fetch(this.url, {method: this.method, headers: this.headers, body: this.body?.body});
  }
  \<close>
  The network is a parameter: it answers the address, method, headers and payload of a
  call with a response, or fails. The address is read from the store when the call is
  made.
\<close>

type_synonym network = "string \<Rightarrow> string \<Rightarrow> Headers \<Rightarrow> string option \<Rightarrow> js_error + Response"

definition ApiRequest_fetch :: "network \<Rightarrow> ApiRequest \<Rightarrow> store \<Rightarrow> js_error + Response" where
  "ApiRequest_fetch net r h =
     net (href (h (url r))) (req_method r) (headers r) (map_option payload (reqBody r))"

section \<open>The response classifier\<close>

text \<open>
  \<^verbatim>\<open>
  export class ApiError extends Error {
      public constructor(public readonly res: ApiResponse<{ error: { message: string } }>) {
          super(res.body.error.message);
      }
  }
  \<close>
  The \<^verbatim>\<open>Error\<close> constructor converts a message that is not \<^verbatim>\<open>undefined\<close> to a string, and
  leaves the message empty otherwise. Reading \<^verbatim>\<open>res.body.error.message\<close> can itself throw.
\<close>

definition error_message :: "json option \<Rightarrow> string" where
  "error_message m = (case m of None \<Rightarrow> [] | Some v \<Rightarrow> js_ToString v)"

definition ApiError_new :: "ApiResponse \<Rightarrow> js_error" where
  "ApiError_new r =
     (case js_get ''error'' (Some (body r)) of
        Inl e \<Rightarrow> e
      | Inr err \<Rightarrow>
          (case js_get ''message'' err of
             Inl e \<Rightarrow> e
           | Inr m \<Rightarrow> ApiError r (error_message m)))"

text \<open>
  \<^verbatim>\<open>
  public static async from<T>(req: ApiRequest, res: Response) {
      const body = await res.json();
      if (!res.ok) {
          if ("error" in body && typeof body === "object" && "message" in body.error)
              throw new ApiError(new ApiResponse(req, res, body));
          else throw new Error(`Unknown error response received. status=${res.status} body=${JSON.stringify(body)}`);
      }
      return new ApiResponse<T>(req, res, body);
  }
  \<close>
  The condition is evaluated left to right and stops at the first conjunct that is
  false; a conjunct that throws ends the whole call.
\<close>

definition is_error_body :: "json \<Rightarrow> js_error + bool" where
  "is_error_body b =
     (case js_in ''error'' (Some b) of
        Inl e \<Rightarrow> Inl e
      | Inr False \<Rightarrow> Inr False
      | Inr True \<Rightarrow>
          if js_typeof b = ''object''
          then (case js_get ''error'' (Some b) of
                  Inl e \<Rightarrow> Inl e
                | Inr err \<Rightarrow> js_in ''message'' err)
          else Inr False)"

definition unknown_error :: "nat \<Rightarrow> json \<Rightarrow> js_error" where
  "unknown_error st b =
     Error (''Unknown error response received. status='' @ digits st @ '' body='' @ JSON_stringify b)"

definition ApiResponse_from :: "ApiRequest \<Rightarrow> Response \<Rightarrow> js_error + ApiResponse" where
  "ApiResponse_from rq rs =
     (case json rs of
        None \<Rightarrow> Inl SyntaxError
      | Some b \<Rightarrow>
          if \<not> ok rs
          then (case is_error_body b of
                  Inl e \<Rightarrow> Inl e
                | Inr True \<Rightarrow> Inl (ApiError_new \<lparr>req = rq, res = rs, body = b\<rparr>)
                | Inr False \<Rightarrow> Inl (unknown_error (status rs) b))
          else Inr \<lparr>req = rq, res = rs, body = b\<rparr>)"

section \<open>The endpoint methods\<close>

text \<open>
  \<^verbatim>\<open>
  private async fetch<T>(req: ApiClient.ApiRequest) {
      return await ApiClient.ApiResponse.from<T>(req, await req.fetch());
  }
  \<close>
  Every public method builds its query parameters, constructs the request from the
  client (which writes to the client's URL in the store), and hands it to \<^verbatim>\<open>fetch\<close>.
  A method returns what \<^verbatim>\<open>fetch\<close> returns or throws, together with the store it leaves;
  when the constructor throws there is no request to fetch and the method throws the
  same (\<open>with_request\<close>). An optional argument left out is \<open>None\<close>; \<^verbatim>\<open>`/artists/${id}`\<close> is the
  concatenation.

  A list operation takes \<^verbatim>\<open>limit\<close> and \<^verbatim>\<open>page\<close> as numbers and calls \<^verbatim>\<open>toString()\<close> on
  them. The numbers are of any type here, and the platform's \<^verbatim>\<open>toString\<close> for them is
  the parameter \<open>num_toString\<close>, so that what is proved holds of every number and
  of whatever the platform writes for it.
\<close>

definition ApiClient_fetch :: "network \<Rightarrow> ApiRequest \<Rightarrow> store \<Rightarrow> js_error + ApiResponse" where
  "ApiClient_fetch net r h =
     (case ApiRequest_fetch net r h of
        Inl e \<Rightarrow> Inl e
      | Inr rs \<Rightarrow> ApiResponse_from r rs)"

definition with_request ::
  "js_error + ApiRequest \<Rightarrow> (ApiRequest \<Rightarrow> js_error + ApiResponse) \<Rightarrow> js_error + ApiResponse" where
  "with_request made f = (case made of Inl e \<Rightarrow> Inl e | Inr r \<Rightarrow> f r)"

definition info ::
  "network \<Rightarrow> ApiClient \<Rightarrow> store
    \<Rightarrow> (js_error + ApiResponse) \<times> store" where
  "info net this_api h =
     (let (r, h1) = ApiRequest_new this_api ''/'' no_query no_headers GET None h
      in (with_request r (\<lambda>rq. ApiClient_fetch net rq h1), h1))"

definition listArtists ::
  "network \<Rightarrow> ('n \<Rightarrow> string) \<Rightarrow> ApiClient \<Rightarrow> 'n option \<Rightarrow> 'n option \<Rightarrow> store
    \<Rightarrow> (js_error + ApiResponse) \<times> store" where
  "listArtists net num_toString this_api limit page h =
     (let q0 = no_query;
          q1 = (case limit of None \<Rightarrow> q0 | Some l \<Rightarrow> usp_set ''limit'' (num_toString l) q0);
          q2 = (case page of None \<Rightarrow> q1 | Some p \<Rightarrow> usp_set ''page'' (num_toString p) q1);
          (r, h1) = ApiRequest_new this_api ''/artists'' q2 no_headers GET None h
      in (with_request r (\<lambda>rq. ApiClient_fetch net rq h1), h1))"

definition getArtists ::
  "network \<Rightarrow> ApiClient \<Rightarrow> string list \<Rightarrow> store
    \<Rightarrow> (js_error + ApiResponse) \<times> store" where
  "getArtists net this_api ids h =
     (let usp = fold (\<lambda>i ps. usp_append ''id'' i ps) ids no_query;
          (r, h1) = ApiRequest_new this_api ''/artists'' usp no_headers GET None h
      in (with_request r (\<lambda>rq. ApiClient_fetch net rq h1), h1))"

definition getArtist ::
  "network \<Rightarrow> ApiClient \<Rightarrow> string \<Rightarrow> store
    \<Rightarrow> (js_error + ApiResponse) \<times> store" where
  "getArtist net this_api i h =
     (let (r, h1) = ApiRequest_new this_api (''/artists/'' @ i) no_query no_headers GET None h
      in (with_request r (\<lambda>rq. ApiClient_fetch net rq h1), h1))"

definition listArtistAlbums ::
  "network \<Rightarrow> ('n \<Rightarrow> string) \<Rightarrow> ApiClient \<Rightarrow> string \<Rightarrow> 'n option \<Rightarrow> 'n option \<Rightarrow> store
    \<Rightarrow> (js_error + ApiResponse) \<times> store" where
  "listArtistAlbums net num_toString this_api i limit page h =
     (let q0 = no_query;
          q1 = (case limit of None \<Rightarrow> q0 | Some l \<Rightarrow> usp_set ''limit'' (num_toString l) q0);
          q2 = (case page of None \<Rightarrow> q1 | Some p \<Rightarrow> usp_set ''page'' (num_toString p) q1);
          (r, h1) = ApiRequest_new this_api (''/artists/'' @ i @ ''/albums'') q2 no_headers GET None h
      in (with_request r (\<lambda>rq. ApiClient_fetch net rq h1), h1))"

definition listArtistTracks ::
  "network \<Rightarrow> ('n \<Rightarrow> string) \<Rightarrow> ApiClient \<Rightarrow> string \<Rightarrow> 'n option \<Rightarrow> 'n option \<Rightarrow> store
    \<Rightarrow> (js_error + ApiResponse) \<times> store" where
  "listArtistTracks net num_toString this_api i limit page h =
     (let q0 = no_query;
          q1 = (case limit of None \<Rightarrow> q0 | Some l \<Rightarrow> usp_set ''limit'' (num_toString l) q0);
          q2 = (case page of None \<Rightarrow> q1 | Some p \<Rightarrow> usp_set ''page'' (num_toString p) q1);
          (r, h1) = ApiRequest_new this_api (''/artists/'' @ i @ ''/tracks'') q2 no_headers GET None h
      in (with_request r (\<lambda>rq. ApiClient_fetch net rq h1), h1))"

definition listAlbums ::
  "network \<Rightarrow> ('n \<Rightarrow> string) \<Rightarrow> ApiClient \<Rightarrow> 'n option \<Rightarrow> 'n option \<Rightarrow> store
    \<Rightarrow> (js_error + ApiResponse) \<times> store" where
  "listAlbums net num_toString this_api limit page h =
     (let q0 = no_query;
          q1 = (case limit of None \<Rightarrow> q0 | Some l \<Rightarrow> usp_set ''limit'' (num_toString l) q0);
          q2 = (case page of None \<Rightarrow> q1 | Some p \<Rightarrow> usp_set ''page'' (num_toString p) q1);
          (r, h1) = ApiRequest_new this_api ''/albums'' q2 no_headers GET None h
      in (with_request r (\<lambda>rq. ApiClient_fetch net rq h1), h1))"

definition getAlbum ::
  "network \<Rightarrow> ApiClient \<Rightarrow> string \<Rightarrow> store
    \<Rightarrow> (js_error + ApiResponse) \<times> store" where
  "getAlbum net this_api i h =
     (let (r, h1) = ApiRequest_new this_api (''/albums/'' @ i) no_query no_headers GET None h
      in (with_request r (\<lambda>rq. ApiClient_fetch net rq h1), h1))"

definition listAlbumTracks ::
  "network \<Rightarrow> ('n \<Rightarrow> string) \<Rightarrow> ApiClient \<Rightarrow> string \<Rightarrow> 'n option \<Rightarrow> 'n option \<Rightarrow> store
    \<Rightarrow> (js_error + ApiResponse) \<times> store" where
  "listAlbumTracks net num_toString this_api i limit page h =
     (let q0 = no_query;
          q1 = (case limit of None \<Rightarrow> q0 | Some l \<Rightarrow> usp_set ''limit'' (num_toString l) q0);
          q2 = (case page of None \<Rightarrow> q1 | Some p \<Rightarrow> usp_set ''page'' (num_toString p) q1);
          (r, h1) = ApiRequest_new this_api (''/albums/'' @ i @ ''/tracks'') q2 no_headers GET None h
      in (with_request r (\<lambda>rq. ApiClient_fetch net rq h1), h1))"

definition listTracks ::
  "network \<Rightarrow> ('n \<Rightarrow> string) \<Rightarrow> ApiClient \<Rightarrow> 'n option \<Rightarrow> 'n option \<Rightarrow> string option \<Rightarrow> store
    \<Rightarrow> (js_error + ApiResponse) \<times> store" where
  "listTracks net num_toString this_api limit page sort_by h =
     (let q0 = no_query;
          q1 = (case limit of None \<Rightarrow> q0 | Some l \<Rightarrow> usp_set ''limit'' (num_toString l) q0);
          q2 = (case page of None \<Rightarrow> q1 | Some p \<Rightarrow> usp_set ''page'' (num_toString p) q1);
          q3 = (case sort_by of None \<Rightarrow> q2 | Some s \<Rightarrow> usp_set ''sort'' s q2);
          (r, h1) = ApiRequest_new this_api ''/tracks'' q3 no_headers GET None h
      in (with_request r (\<lambda>rq. ApiClient_fetch net rq h1), h1))"

definition getTrack ::
  "network \<Rightarrow> ApiClient \<Rightarrow> string \<Rightarrow> store
    \<Rightarrow> (js_error + ApiResponse) \<times> store" where
  "getTrack net this_api i h =
     (let (r, h1) = ApiRequest_new this_api (''/tracks/'' @ i) no_query no_headers GET None h
      in (with_request r (\<lambda>rq. ApiClient_fetch net rq h1), h1))"

section \<open>Networks, and the properties asked of the client\<close>

text \<open>
  Two networks to run the endpoint methods against: one that answers every call with
  the same response, and one that cannot be reached.
\<close>

definition answer :: "Response \<Rightarrow> network" where
  "answer rs = (\<lambda>a m hs pl. Inr rs)"

definition unreachable :: network where
  "unreachable = (\<lambda>a m hs pl. Inl NetworkError)"

text \<open>
  What a caller may ask of a constructor call, which returns a request or throws: the
  body the request carries and its \<^verbatim>\<open>content-type\<close> header. A pair of the caller's
  headers is valid when its name is a header name and its normalised value a header
  value.
\<close>

definition attached_body :: "js_error + ApiRequest \<Rightarrow> js_error + Body option" where
  "attached_body made = (case made of Inl e \<Rightarrow> Inl e | Inr r \<Rightarrow> Inr (reqBody r))"

definition content_type_of :: "js_error + ApiRequest \<Rightarrow> js_error + string option" where
  "content_type_of made =
     (case made of Inl e \<Rightarrow> Inl e | Inr r \<Rightarrow> Headers_get ''content-type'' (headers r))"

definition url_of :: "js_error + ApiRequest \<Rightarrow> js_error + ref" where
  "url_of made = (case made of Inl e \<Rightarrow> Inl e | Inr r \<Rightarrow> Inr (url r))"

definition valid_header :: "string \<times> string \<Rightarrow> bool" where
  "valid_header kv = (is_header_name (fst kv) \<and> is_header_value (normalize_value (snd kv)))"

text \<open>
  The query parameters of a list operation as its caller supplied them: a name for
  each argument that was given, in the order limit, page, sort, the numbers as the
  platform writes them.
\<close>

definition list_params ::
  "('n \<Rightarrow> string) \<Rightarrow> 'n option \<Rightarrow> 'n option \<Rightarrow> string option \<Rightarrow> URLSearchParams" where
  "list_params num_toString limit page sort_by =
     (case limit of None \<Rightarrow> [] | Some l \<Rightarrow> [(''limit'', num_toString l)]) @
     (case page of None \<Rightarrow> [] | Some p \<Rightarrow> [(''page'', num_toString p)]) @
     (case sort_by of None \<Rightarrow> [] | Some s \<Rightarrow> [(''sort'', s)])"

text \<open>
  What is asked of the URL of a list request: its query string is the serialisation of
  the supplied parameters and of nothing else, so a \<^verbatim>\<open>limit\<close> or \<^verbatim>\<open>page\<close> key stands in it
  exactly when that argument was given, and it is empty when no argument was given.
\<close>

definition list_query_as_supplied ::
  "('n \<Rightarrow> string) \<Rightarrow> 'n option \<Rightarrow> 'n option \<Rightarrow> string option \<Rightarrow> URL \<Rightarrow> bool" where
  "list_query_as_supplied num_toString limit page sort_by u =
     (query u = usp_toString (list_params num_toString limit page sort_by)
      \<and> (''limit'' \<in> set (query_keys (query u))) = (limit \<noteq> None)
      \<and> (''page'' \<in> set (query_keys (query u))) = (page \<noteq> None)
      \<and> (limit = None \<and> page = None \<and> sort_by = None \<longrightarrow> search u = []))"

text \<open>
  The invariant of a page, read off a JSON body: no more resources than the limit,
  \<^verbatim>\<open>previous\<close> null exactly on page one, \<^verbatim>\<open>next\<close> null exactly when nothing remains
  beyond \<^verbatim>\<open>page * limit\<close> of the total.
\<close>

definition page_invariant :: "json \<Rightarrow> bool" where
  "page_invariant b =
     (case b of
        JObj kvs \<Rightarrow>
          (case (map_of kvs ''page'', map_of kvs ''limit'', map_of kvs ''total'',
                 map_of kvs ''previous'', map_of kvs ''next'', map_of kvs ''resources'') of
             (Some (JNum pg), Some (JNum lim), Some (JNum tot), Some prev, Some nxt, Some (JArr rs)) \<Rightarrow>
               int (length rs) \<le> int_of lim
               \<and> (prev = JNull) = (int_of pg = 1)
               \<and> (nxt = JNull) = (int_of tot \<le> int_of pg * int_of lim)
           | _ \<Rightarrow> False)
      | _ \<Rightarrow> False)"

definition returned_body :: "(js_error + ApiResponse) \<times> store \<Rightarrow> json option" where
  "returned_body out = (case fst out of Inl e \<Rightarrow> None | Inr env \<Rightarrow> Some (body env))"

definition returns_unvalidated :: "json \<Rightarrow> (js_error + ApiResponse) \<times> store \<Rightarrow> bool" where
  "returns_unvalidated b out =
     (case fst out of
        Inl e \<Rightarrow> False
      | Inr env \<Rightarrow> body env = b \<and> page_invariant (body env) = page_invariant b)"

text \<open>
  A page a server may send: page one with a \<^verbatim>\<open>previous\<close> link, two resources under a
  limit of one, and no \<^verbatim>\<open>next\<close> link although four of five resources remain.
\<close>

definition overfull_page :: json where
  "overfull_page =
     JObj [(''page'', JNum (safe 1)), (''limit'', JNum (safe 1)), (''total'', JNum (safe 5)),
           (''href'', JStr ''/artists''), (''previous'', JStr ''/artists?page=0''),
           (''next'', JNull),
           (''resources'', JArr [JObj [(''id'', JStr ''a'')], JObj [(''id'', JStr ''b'')]])]"

section \<open>Facts about the string methods\<close>

lemma endsWith_slash: "endsWith s ''/'' = (s \<noteq> [] \<and> last s = CHR ''/'')"
  by (cases s rule: rev_cases) (auto simp: endsWith_def)

lemma startsWith_char: "startsWith s [c] = (s \<noteq> [] \<and> hd s = c)"
  by (cases s) (auto simp: startsWith_def)

section \<open>The pathname setter on a path of plain segments\<close>

lemma segments_nonempty: "segments xs \<noteq> []"
  by (induction xs) (auto split: list.splits)

lemma join_segments:
  "\<forall>c \<in> set xs. c \<noteq> backslash \<Longrightarrow>
     concat (map (\<lambda>seg. CHR ''/'' # seg) (segments xs)) = CHR ''/'' # xs"
proof (induction xs)
  case Nil
  then show ?case by simp
next
  case (Cons x xs)
  then have ih: "concat (map (\<lambda>seg. CHR ''/'' # seg) (segments xs)) = CHR ''/'' # xs"
    by simp
  show ?case
  proof (cases "is_separator x")
    case True
    with Cons.prems have "x = CHR ''/''" by (simp add: is_separator_def)
    with True ih show ?thesis by simp
  next
    case False
    obtain w ws where w: "segments xs = w # ws"
      using segments_nonempty [of xs] by (cases "segments xs") auto
    with ih have "w @ concat (map (\<lambda>seg. CHR ''/'' # seg) ws) = xs" by simp
    with False w show ?thesis by simp
  qed
qed

lemma segments_chars: "seg \<in> set (segments xs) \<Longrightarrow> set seg \<subseteq> set xs"
proof (induction xs arbitrary: seg)
  case Nil
  then show ?case by simp
next
  case (Cons x xs)
  show ?case
  proof (cases "is_separator x")
    case True
    with Cons show ?thesis by auto
  next
    case False
    obtain w ws where w: "segments xs = w # ws"
      using segments_nonempty [of xs] by (cases "segments xs") auto
    with False Cons.prems have "seg = x # w \<or> seg \<in> set ws" by simp
    then show ?thesis
      using Cons.IH [of w] Cons.IH [of seg] w by auto
  qed
qed

lemma path_encode_plain: "\<forall>c \<in> set seg. \<not> path_percent_encode_set c \<Longrightarrow> path_encode seg = seg"
  by (induction seg) (simp_all add: path_encode_def)

lemma path_state_plain:
  "\<forall>seg \<in> set segs. \<not> single_dot seg \<and> \<not> double_dot seg \<Longrightarrow> path_state path segs = path @ segs"
  by (induction segs arbitrary: path) simp_all

lemma tab_or_newline_encoded: "tab_or_newline c \<Longrightarrow> path_percent_encode_set c"
  by (auto simp: tab_or_newline_def path_percent_encode_set_def)

lemma parse_path_plain:
  assumes "plain_path s"
  shows "parse_path s = s"
proof -
  from assms obtain t where s: "s = CHR ''/'' # t"
    by (cases s) (auto simp: plain_path_def startsWith_char)
  have chars: "\<forall>c \<in> set s. \<not> path_percent_encode_set c \<and> c \<noteq> backslash"
    using assms by (simp add: plain_path_def list_all_iff)
  have dots: "\<forall>seg \<in> set (segments t). \<not> single_dot seg \<and> \<not> double_dot seg"
    using assms s by (simp add: plain_path_def list_all_iff)
  have keep: "filter (\<lambda>c. \<not> tab_or_newline c) s = s"
    using chars tab_or_newline_encoded by (auto simp: filter_id_conv)
  have enc: "map path_encode (segments t) = segments t"
  proof (rule map_idI)
    fix seg assume "seg \<in> set (segments t)"
    then have "set seg \<subseteq> set t" by (rule segments_chars)
    with chars s show "path_encode seg = seg"
      by (intro path_encode_plain) auto
  qed
  have "parse_path s = concat (map (\<lambda>seg. CHR ''/'' # seg) (path_state [] (segments t)))"
    using keep enc s by (simp add: parse_path_def is_separator_def)
  also have "\<dots> = concat (map (\<lambda>seg. CHR ''/'' # seg) (segments t))"
    using path_state_plain [OF dots, of "[]"] by simp
  also have "\<dots> = CHR ''/'' # t"
    using chars s by (intro join_segments) auto
  finally show ?thesis using s by simp
qed

section \<open>The slashes at the junction\<close>

lemma trailing_endsWith: "endsWith s ''/'' = (1 \<le> trailing_slashes s)"
  by (cases s rule: rev_cases) (auto simp: endsWith_slash trailing_slashes_def)

lemma leading_startsWith: "startsWith s ''/'' = (1 \<le> leading_slashes s)"
  by (cases s) (auto simp: startsWith_char leading_slashes_def)

lemma length_dropWhile_takeWhile: "length (dropWhile P xs) = length xs - length (takeWhile P xs)"
proof -
  have "length (takeWhile P xs) + length (dropWhile P xs) = length xs"
    by (simp flip: length_append)
  then show ?thesis by arith
qed

lemma slashes_le_length: "trailing_slashes s \<le> length s" "leading_slashes s \<le> length s"
  using length_takeWhile_le [of "\<lambda>c. c = CHR ''/''" "rev s"]
    length_takeWhile_le [of "\<lambda>c. c = CHR ''/''" s]
  by (simp_all add: trailing_slashes_def leading_slashes_def)

lemma length_joinOneSlash:
  "length (joinOneSlash base path) + trailing_slashes base + leading_slashes path
     = length base + length path + 1"
proof -
  have "length (takeWhile (\<lambda>c. c = CHR ''/'') (rev base)) \<le> length (rev base)"
    by (rule length_takeWhile_le)
  moreover have "length (takeWhile (\<lambda>c. c = CHR ''/'') path) \<le> length path"
    by (rule length_takeWhile_le)
  ultimately show ?thesis
    by (simp add: joinOneSlash_def trailing_slashes_def leading_slashes_def
        length_dropWhile_takeWhile)
qed

lemma length_concatPath:
  "length (concatPath base path) =
     length base + length path
       - (if 1 \<le> trailing_slashes base \<and> 1 \<le> leading_slashes path then 1 else 0)"
  using slashes_le_length(2) [of path]
  by (simp add: concatPath_def trailing_endsWith leading_startsWith slice_def)

lemma takeWhile_one_slash:
  "length (takeWhile (\<lambda>c. c = CHR ''/'') xs) = 1 \<Longrightarrow> takeWhile (\<lambda>c. c = CHR ''/'') xs = ''/''"
proof -
  assume l: "length (takeWhile (\<lambda>c. c = CHR ''/'') xs) = 1"
  then obtain x where x: "takeWhile (\<lambda>c. c = CHR ''/'') xs = [x]"
    by (cases "takeWhile (\<lambda>c. c = CHR ''/'') xs") auto
  then have "x \<in> set (takeWhile (\<lambda>c. c = CHR ''/'') xs)" by simp
  then have "x = CHR ''/''" by (rule set_takeWhileD [THEN conjunct2])
  with x show ?thesis by simp
qed

lemma strip_leading:
  "leading_slashes p = 0 \<Longrightarrow> dropWhile (\<lambda>c. c = CHR ''/'') p = p"
  "leading_slashes p = 1 \<Longrightarrow> p = CHR ''/'' # dropWhile (\<lambda>c. c = CHR ''/'') p"
proof -
  have split: "p = takeWhile (\<lambda>c. c = CHR ''/'') p @ dropWhile (\<lambda>c. c = CHR ''/'') p" by simp
  show "leading_slashes p = 0 \<Longrightarrow> dropWhile (\<lambda>c. c = CHR ''/'') p = p"
    using split by (simp add: leading_slashes_def)
  show "leading_slashes p = 1 \<Longrightarrow> p = CHR ''/'' # dropWhile (\<lambda>c. c = CHR ''/'') p"
  proof -
    assume "leading_slashes p = 1"
    then have "takeWhile (\<lambda>c. c = CHR ''/'') p = ''/''"
      unfolding leading_slashes_def by (rule takeWhile_one_slash)
    with split show ?thesis by (metis append_Cons append_Nil)
  qed
qed

lemma strip_trailing:
  "trailing_slashes b = 0 \<Longrightarrow> rev (dropWhile (\<lambda>c. c = CHR ''/'') (rev b)) = b"
  "trailing_slashes b = 1 \<Longrightarrow> b = rev (dropWhile (\<lambda>c. c = CHR ''/'') (rev b)) @ ''/''"
proof -
  show "trailing_slashes b = 0 \<Longrightarrow> rev (dropWhile (\<lambda>c. c = CHR ''/'') (rev b)) = b"
    using strip_leading(1) [of "rev b"] by (simp add: leading_slashes_def trailing_slashes_def)
  show "trailing_slashes b = 1 \<Longrightarrow> b = rev (dropWhile (\<lambda>c. c = CHR ''/'') (rev b)) @ ''/''"
  proof -
    assume "trailing_slashes b = 1"
    then have "rev b = CHR ''/'' # dropWhile (\<lambda>c. c = CHR ''/'') (rev b)"
      using strip_leading(2) [of "rev b"] by (simp add: leading_slashes_def trailing_slashes_def)
    then have "rev (rev b) = rev (CHR ''/'' # dropWhile (\<lambda>c. c = CHR ''/'') (rev b))"
      by simp
    then show ?thesis by simp
  qed
qed

lemma concatPath_joinOneSlash:
  "(concatPath base path = joinOneSlash base path) =
     (trailing_slashes base \<le> 1 \<and> leading_slashes path \<le> 1
      \<and> 1 \<le> trailing_slashes base + leading_slashes path)"
proof
  assume "concatPath base path = joinOneSlash base path"
  then have "length (concatPath base path) = length (joinOneSlash base path)" by simp
  then show "trailing_slashes base \<le> 1 \<and> leading_slashes path \<le> 1
      \<and> 1 \<le> trailing_slashes base + leading_slashes path"
    using length_joinOneSlash [of base path] length_concatPath [of base path]
      slashes_le_length(1) [of base] slashes_le_length(2) [of path]
    by (simp split: if_splits) arith+
next
  assume a: "trailing_slashes base \<le> 1 \<and> leading_slashes path \<le> 1
      \<and> 1 \<le> trailing_slashes base + leading_slashes path"
  then consider (both) "trailing_slashes base = 1" "leading_slashes path = 1"
    | (base) "trailing_slashes base = 1" "leading_slashes path = 0"
    | (path) "trailing_slashes base = 0" "leading_slashes path = 1"
    by linarith
  then show "concatPath base path = joinOneSlash base path"
  proof cases
    case both
    have "concatPath base path = base @ tl path"
      using both by (simp add: concatPath_def trailing_endsWith leading_startsWith slice_def drop_Suc)
    also have "\<dots> = joinOneSlash base path"
      using strip_trailing(2) [OF both(1)] strip_leading(2) [OF both(2)]
      by (metis append.assoc append_Cons append_Nil joinOneSlash_def list.sel(3))
    finally show ?thesis .
  next
    case base
    have "concatPath base path = base @ path"
      using base by (simp add: concatPath_def leading_startsWith)
    also have "\<dots> = joinOneSlash base path"
      using strip_trailing(2) [OF base(1)] strip_leading(1) [OF base(2)]
      by (metis append.assoc append_Cons append_Nil joinOneSlash_def)
    finally show ?thesis .
  next
    case path
    have "concatPath base path = base @ path"
      using path by (simp add: concatPath_def trailing_endsWith)
    also have "\<dots> = joinOneSlash base path"
      using strip_trailing(1) [OF path(1)] strip_leading(2) [OF path(2)]
      by (metis append_Cons append_Nil joinOneSlash_def)
    finally show ?thesis .
  qed
qed

section \<open>What a serialised query string is made of\<close>

lemma hex_digit_mem: "d < 16 \<Longrightarrow> hex_digit d \<in> set ''0123456789ABCDEF''"
  unfolding hex_digit_def by (rule nth_mem) simp

lemma hex_digit_safe:
  assumes "d < 16"
  shows "urlencoded_safe (hex_digit d)"
proof -
  have "\<forall>x \<in> set ''0123456789ABCDEF''. urlencoded_safe x"
    by (simp add: urlencoded_safe_def)
  then show ?thesis
    using hex_digit_mem [OF assms] by blast
qed

lemma percent_byte_form:
  assumes "n < 256" and "c \<in> set (percent_byte n)"
  shows "urlencoded_safe c \<or> c = CHR ''%''"
proof -
  have "n < 16 * 16" using assms(1) by simp
  then have "n div 16 < 16" by (rule less_mult_imp_div_less)
  then show ?thesis
    using assms(2) hex_digit_safe [of "n div 16"] hex_digit_safe [of "n mod 16"]
    by (auto simp: percent_byte_def)
qed

lemma utf8_bytes_small: "n \<in> set (utf8_bytes x) \<Longrightarrow> n < 256"
proof -
  assume n: "n \<in> set (utf8_bytes x)"
  have "(of_char x :: nat) < 256" by (rule nat_of_char_less_256)
  then have "(of_char x :: nat) < 4 * 64" by simp
  then have "(of_char x :: nat) div 64 < 4" by (rule less_mult_imp_div_less)
  moreover have "(of_char x :: nat) mod 64 < 64" by simp
  ultimately show ?thesis
    using n \<open>(of_char x :: nat) < 256\<close>
    by (auto simp: utf8_bytes_def Let_def split: if_splits)
qed

lemma percent_encode_form:
  "c \<in> set (percent_encode x) \<Longrightarrow> urlencoded_safe c \<or> c = CHR ''%''"
  using percent_byte_form utf8_bytes_small
  by (auto simp: percent_encode_def)

lemma urlencode_byte_form:
  "c \<in> set (urlencode_byte x) \<Longrightarrow> urlencoded_safe c \<or> c = CHR ''+'' \<or> c = CHR ''%''"
  using percent_encode_form [of c x]
  by (auto simp: urlencode_byte_def split: if_splits)

lemma urlencode_form:
  "c \<in> set (urlencode s) \<Longrightarrow> urlencoded_safe c \<or> c = CHR ''+'' \<or> c = CHR ''%''"
  using urlencode_byte_form by (auto simp: urlencode_def)

lemma urlencoded_safe_chars:
  "urlencoded_safe c \<Longrightarrow> c \<noteq> CHR ''&'' \<and> c \<noteq> CHR ''='' \<and> c \<noteq> CHR ''?''"
  by (auto simp: urlencoded_safe_def)

lemma urlencoded_safe_kept:
  assumes "urlencoded_safe c"
  shows "\<not> query_percent_encode_set c \<and> \<not> tab_or_newline c"
proof -
  have "\<not> query_percent_encode_set c"
    using assms unfolding urlencoded_safe_def query_percent_encode_set_def Let_def by arith
  moreover have "\<not> tab_or_newline c"
    using assms by (auto simp: urlencoded_safe_def tab_or_newline_def)
  ultimately show ?thesis by simp
qed

lemma urlencode_chars:
  "c \<in> set (urlencode s) \<Longrightarrow> c \<noteq> CHR ''&'' \<and> c \<noteq> CHR ''='' \<and> c \<noteq> CHR ''?''"
  using urlencode_form [of c s] urlencoded_safe_chars [of c] by auto

lemma urlencode_kept:
  "c \<in> set (urlencode s) \<Longrightarrow> \<not> query_percent_encode_set c \<and> \<not> tab_or_newline c"
  using urlencode_form [of c s] urlencoded_safe_kept [of c]
  by (auto simp: query_percent_encode_set_def tab_or_newline_def)

lemma usp_pair_chars: "c \<in> set (usp_pair kv) \<Longrightarrow> c \<noteq> CHR ''&'' \<and> c \<noteq> CHR ''?''"
  using urlencode_chars [of c "fst kv"] urlencode_chars [of c "snd kv"]
  by (auto simp: usp_pair_def)

lemma usp_pair_kept:
  "c \<in> set (usp_pair kv) \<Longrightarrow> \<not> query_percent_encode_set c \<and> \<not> tab_or_newline c"
  using urlencode_kept [of c "fst kv"] urlencode_kept [of c "snd kv"]
  by (auto simp: usp_pair_def query_percent_encode_set_def tab_or_newline_def)

lemma intercalate_chars:
  "c \<in> set (intercalate sep xs) \<Longrightarrow> c \<in> set sep \<or> (\<exists>x \<in> set xs. c \<in> set x)"
  by (induction sep xs rule: intercalate.induct) auto

lemma split_on_absent: "c \<notin> set a \<Longrightarrow> split_on c a = [a]"
  by (induction a) auto

lemma split_on_append: "c \<notin> set a \<Longrightarrow> split_on c (a @ c # b) = a # split_on c b"
  by (induction a) auto

lemma split_on_intercalate:
  "xs \<noteq> [] \<Longrightarrow> \<forall>x \<in> set xs. c \<notin> set x \<Longrightarrow> split_on c (intercalate [c] xs) = xs"
proof (induction "[c]" xs rule: intercalate.induct)
  case 1
  then show ?case by simp
next
  case (2 x)
  then show ?case by (simp add: split_on_absent)
next
  case (3 x y ys)
  then show ?case by (simp add: split_on_append)
qed

lemma usp_pair_nonempty: "usp_pair kv \<noteq> []"
  by (simp add: usp_pair_def)

lemma usp_toString_empty: "(usp_toString ps = []) = (ps = [])"
proof (cases ps)
  case Nil
  then show ?thesis by (simp add: usp_toString_def)
next
  case (Cons kv rest)
  then show ?thesis
    by (cases rest) (simp_all add: usp_toString_def usp_pair_nonempty)
qed

lemma usp_toString_chars:
  assumes "c \<in> set (usp_toString ps)"
  shows "c \<noteq> CHR ''?'' \<and> \<not> query_percent_encode_set c \<and> \<not> tab_or_newline c"
proof -
  from assms have "c = CHR ''&'' \<or> (\<exists>x \<in> set (map usp_pair ps). c \<in> set x)"
    using intercalate_chars [of c "''&''" "map usp_pair ps"] by (simp add: usp_toString_def)
  then show ?thesis
  proof
    assume "c = CHR ''&''"
    then show ?thesis by (simp add: query_percent_encode_set_def tab_or_newline_def)
  next
    assume "\<exists>x \<in> set (map usp_pair ps). c \<in> set x"
    then show ?thesis using usp_pair_chars usp_pair_kept by auto
  qed
qed

lemma query_encode_kept:
  "\<forall>c \<in> set s. \<not> query_percent_encode_set c \<and> \<not> tab_or_newline c \<Longrightarrow> query_encode s = s"
  by (induction s) (simp_all add: query_encode_def)

lemma set_search_usp: "set_search (usp_toString ps) u = u\<lparr>query := usp_toString ps\<rparr>"
proof -
  have "\<not> startsWith (usp_toString ps) ''?''"
    using usp_toString_chars [of "CHR ''?''" ps]
    by (cases "usp_toString ps") (auto simp: startsWith_char)
  moreover have "query_encode (usp_toString ps) = usp_toString ps"
    using usp_toString_chars [of _ ps] by (intro query_encode_kept) blast
  ultimately show ?thesis by (simp add: set_search_def)
qed

lemma key_of_usp_pair: "takeWhile (\<lambda>c. c \<noteq> CHR ''='') (usp_pair kv) = urlencode (fst kv)"
proof -
  have "\<forall>c \<in> set (urlencode (fst kv)). c \<noteq> CHR ''=''"
    using urlencode_chars by blast
  then show ?thesis
    by (simp add: usp_pair_def takeWhile_tail)
qed

lemma query_keys_usp_toString: "query_keys (usp_toString ps) = map (\<lambda>kv. urlencode (fst kv)) ps"
proof (cases "ps = []")
  case True
  then show ?thesis by (simp add: query_keys_def usp_toString_def)
next
  case False
  have "\<forall>x \<in> set (map usp_pair ps). CHR ''&'' \<notin> set x"
    using usp_pair_chars by auto
  then have "split_on CHR ''&'' (usp_toString ps) = map usp_pair ps"
    using False split_on_intercalate [of "map usp_pair ps" "CHR ''&''"]
    by (simp add: usp_toString_def)
  then show ?thesis
    using False by (simp add: query_keys_def usp_toString_empty key_of_usp_pair)
qed

lemma urlencode_names:
  "urlencode ''limit'' = ''limit''" "urlencode ''page'' = ''page''"
  "urlencode ''sort'' = ''sort''" "urlencode ''id'' = ''id''"
  by (simp_all add: urlencode_def urlencode_byte_def urlencoded_safe_def)

section \<open>The URL composer: one slash, or none\<close>

lemma concatUrl_fst: "fst (concatUrl r p h) = r"
  by (simp add: concatUrl_def)

lemma concatUrl_snd:
  "snd (concatUrl r p h) = h(r := (h r)\<lparr>pathname := parse_path (concatPath (pathname (h r)) p)\<rparr>)"
  by (simp add: concatUrl_def set_pathname_def)

text \<open>
  C1, as the code has it. The composer sets the base URL's pathname to the base's path
  followed by the relative path, the relative path without its first slash when the
  base's path ends with a slash and the relative path starts with one; it never inserts
  a slash. That string is the two joined by exactly one slash if and only if each side
  brings at most one slash to the junction and at least one side brings one; when one
  side brings none, the two stand directly one after the other. The URL then has as its
  pathname what the pathname setter makes of the string, which is the string itself
  when it is a path of plain segments.
\<close>

theorem concatUrl_separator:
  "pathname (snd (concatUrl r p h) r) = parse_path (concatPath (pathname (h r)) p)
   \<and> (concatPath (pathname (h r)) p = joinOneSlash (pathname (h r)) p) =
       (trailing_slashes (pathname (h r)) \<le> 1 \<and> leading_slashes p \<le> 1
        \<and> 1 \<le> trailing_slashes (pathname (h r)) + leading_slashes p)
   \<and> (trailing_slashes (pathname (h r)) = 0 \<or> leading_slashes p = 0 \<longrightarrow>
        concatPath (pathname (h r)) p = pathname (h r) @ p)
   \<and> (plain_path (concatPath (pathname (h r)) p) \<longrightarrow>
        pathname (snd (concatUrl r p h) r) = concatPath (pathname (h r)) p)"
proof -
  have "trailing_slashes (pathname (h r)) = 0 \<or> leading_slashes p = 0 \<longrightarrow>
      concatPath (pathname (h r)) p = pathname (h r) @ p"
    by (auto simp: concatPath_def trailing_endsWith leading_startsWith)
  then show ?thesis
    using concatPath_joinOneSlash [of "pathname (h r)" p]
      parse_path_plain [of "concatPath (pathname (h r)) p"]
    by (simp add: concatUrl_snd)
qed

text \<open>
  C1 at the base path \<^verbatim>\<open>/v1/\<close> and the relative path \<^verbatim>\<open>/tracks\<close>, where both sides bring
  a slash, and at \<^verbatim>\<open>/v1\<close> and \<^verbatim>\<open>tracks\<close>, where neither does.
\<close>

theorem concatUrl_separator_witness:
  "pathname (snd (concatUrl 0 ''/tracks''
      (all_refs \<lparr>origin = ''http://h'', pathname = ''/v1/'', query = []\<rparr>)) 0) = ''/v1/tracks''
   \<and> concatPath ''/v1/'' ''/tracks'' = joinOneSlash ''/v1/'' ''/tracks''
   \<and> concatPath ''/v1'' ''tracks'' = ''/v1'' @ ''tracks''"
proof -
  note both = concatUrl_separator
    [of 0 "''/tracks''" "all_refs \<lparr>origin = ''http://h'', pathname = ''/v1/'', query = []\<rparr>"]
  note neither = concatUrl_separator
    [of 0 "''tracks''" "all_refs \<lparr>origin = ''http://h'', pathname = ''/v1'', query = []\<rparr>"]
  have plain: "plain_path ''/v1/tracks''"
    by (simp add: plain_path_def startsWith_def path_percent_encode_set_def backslash_def
        is_separator_def single_dot_def double_dot_def lower_def lower_char_def)
  have cp: "concatPath ''/v1/'' ''/tracks'' = ''/v1/tracks''"
    by (simp add: concatPath_def endsWith_def startsWith_def slice_def)
  have t: "trailing_slashes ''/v1/'' = 1" "leading_slashes ''/tracks'' = 1"
    "trailing_slashes ''/v1'' = 0"
    by (simp_all add: trailing_slashes_def leading_slashes_def)
  have "pathname (snd (concatUrl 0 ''/tracks''
      (all_refs \<lparr>origin = ''http://h'', pathname = ''/v1/'', query = []\<rparr>)) 0) = ''/v1/tracks''"
    using both [THEN conjunct2, THEN conjunct2, THEN conjunct2] plain cp
    by (simp add: all_refs_def)
  moreover have "concatPath ''/v1/'' ''/tracks'' = joinOneSlash ''/v1/'' ''/tracks''"
    using both [THEN conjunct2, THEN conjunct1] t by (simp add: all_refs_def)
  moreover have "concatPath ''/v1'' ''tracks'' = ''/v1'' @ ''tracks''"
    using neither [THEN conjunct2, THEN conjunct2, THEN conjunct1] t by (simp add: all_refs_def)
  ultimately show ?thesis by (intro conjI)
qed

text \<open>
  C1 as stated fails: joining the base path \<^verbatim>\<open>/v1\<close> with \<^verbatim>\<open>tracks\<close> gives \<^verbatim>\<open>/v1tracks\<close>,
  with no slash between the two, where the contract asks for \<^verbatim>\<open>/v1/tracks\<close>.
\<close>

theorem concatUrl_missing_slash:
  "pathname (snd (concatUrl 0 ''tracks''
      (all_refs \<lparr>origin = ''http://h'', pathname = ''/v1'', query = []\<rparr>)) 0) = ''/v1tracks''
   \<and> pathname (snd (concatUrl 0 ''tracks''
      (all_refs \<lparr>origin = ''http://h'', pathname = ''/v1'', query = []\<rparr>)) 0)
     \<noteq> joinOneSlash ''/v1'' ''tracks''"
proof -
  have plain: "plain_path ''/v1tracks''"
    by (simp add: plain_path_def startsWith_def path_percent_encode_set_def backslash_def
        is_separator_def single_dot_def double_dot_def lower_def lower_char_def)
  have cp: "concatPath ''/v1'' ''tracks'' = ''/v1tracks''"
    by (simp add: concatPath_def endsWith_def startsWith_def slice_def)
  have j: "joinOneSlash ''/v1'' ''tracks'' = ''/v1/tracks''"
    by (simp add: joinOneSlash_def)
  show ?thesis
    using parse_path_plain [OF plain] cp j
    by (simp add: concatUrl_snd all_refs_def)
qed

section \<open>The request constructor\<close>

lemma ApiRequest_new_store:
  "snd (ApiRequest_new c p q hi m b h) =
     h(baseUrl c := (h (baseUrl c))
         \<lparr>pathname := parse_path (concatPath (pathname (h (baseUrl c))) p),
          query := usp_toString q\<rparr>)"
  by (simp add: ApiRequest_new_def concatUrl_def set_pathname_def set_search_usp Let_def
      split: option.splits sum.splits)

lemma ApiRequest_new_url: "url_of (fst (ApiRequest_new c p q hi m b h)) = Inr r \<Longrightarrow> r = baseUrl c"
  by (auto simp: ApiRequest_new_def concatUrl_def Let_def url_of_def
      split: option.splits sum.splits if_splits)

subsection \<open>The body and the content type\<close>

lemma Headers_fill_valid:
  "Headers_fill init hs =
     (if list_all valid_header init
      then Inr (hs @ map (\<lambda>kv. (lower (fst kv), normalize_value (snd kv))) init)
      else Inl TypeError)"
  by (induction init arbitrary: hs) (simp_all add: Headers_append_def valid_header_def Let_def)

lemma Headers_new_valid:
  "Headers_new init =
     (if list_all valid_header init
      then Inr (map (\<lambda>kv. (lower (fst kv), normalize_value (snd kv))) init)
      else Inl TypeError)"
  by (simp add: Headers_new_def Headers_fill_valid)

lemma content_type_name:
  "is_header_name ''content-type''" "lower ''content-type'' = ''content-type''"
  by (simp_all add: is_header_name_def token_char_def lower_def lower_char_def)

lemma set_first_absent: "name \<notin> fst ` set hs \<Longrightarrow> set_first name v hs = hs @ [(name, v)]"
  by (induction hs) auto

lemma get_after_set_first:
  "map snd (filter (\<lambda>kv. fst kv = name)
      (set_first name v (filter (\<lambda>kv. fst kv \<noteq> name) hs))) = [v]"
proof -
  let ?hs = "filter (\<lambda>kv. fst kv \<noteq> name) hs"
  have absent: "name \<notin> fst ` set ?hs" by auto
  have none: "filter (\<lambda>kv. fst kv = name) ?hs = []"
    by (induction hs) auto
  show ?thesis
    using set_first_absent [OF absent, of v] none by simp
qed

lemma new_with_body:
  assumes "m \<noteq> ''GET''" and "m \<noteq> ''HEAD''"
  shows "fst (ApiRequest_new c p q hi m (Some b) h) =
     (if list_all valid_header hi \<and> is_header_value (normalize_value (contentType b))
      then Inr \<lparr>api = c, url = baseUrl c,
                headers = set_first ''content-type'' (normalize_value (contentType b))
                  (filter (\<lambda>kv. fst kv \<noteq> ''content-type'')
                     (map (\<lambda>kv. (lower (fst kv), normalize_value (snd kv))) hi)),
                req_method = m, reqBody = Some b\<rparr>
      else Inl TypeError)"
  using assms
  by (simp add: ApiRequest_new_def concatUrl_def Let_def Headers_new_valid Headers_delete_def
      Headers_set_def content_type_name)

lemma new_without_body:
  assumes "bo = None \<or> m = ''GET'' \<or> m = ''HEAD''"
  shows "fst (ApiRequest_new c p q hi m bo h) =
     (if list_all valid_header hi
      then Inr \<lparr>api = c, url = baseUrl c,
                headers = map (\<lambda>kv. (lower (fst kv), normalize_value (snd kv))) hi,
                req_method = m, reqBody = None\<rparr>
      else Inl TypeError)"
  using assms
  by (auto simp: ApiRequest_new_def concatUrl_def Let_def Headers_new_valid split: option.splits)

lemma json_content_type:
  "normalize_value ''application/json'' = ''application/json''"
  "is_header_value ''application/json''"
  by (simp_all add: normalize_value_def http_whitespace_def is_header_value_def)

text \<open>
  C3, as the code has it. When the caller's headers are valid and the body's declared
  content type, once normalised, is a header value, a request constructed with a body
  and a method that is neither \<^verbatim>\<open>GET\<close> nor \<^verbatim>\<open>HEAD\<close> carries that body, and its
  \<^verbatim>\<open>content-type\<close> header is the body's declared content type without the white space
  at its two ends, whatever content type the caller's headers gave. With valid headers
  and the method \<^verbatim>\<open>GET\<close> or \<^verbatim>\<open>HEAD\<close> the request carries no body, given or not. When a
  header of the caller is not valid, or the content type of a body to attach is not,
  the constructor throws a \<^verbatim>\<open>TypeError\<close>. A \<^verbatim>\<open>POST\<close> with a JSON body has the content type
  \<^verbatim>\<open>application/json\<close> whenever the caller's headers are valid.
\<close>

theorem body_forces_content_type:
  "(list_all valid_header hi \<and> is_header_value (normalize_value (contentType b))
      \<and> m \<noteq> ''GET'' \<and> m \<noteq> ''HEAD'' \<longrightarrow>
        attached_body (fst (ApiRequest_new c p q hi m (Some b) h)) = Inr (Some b)
        \<and> content_type_of (fst (ApiRequest_new c p q hi m (Some b) h))
            = Inr (Some (normalize_value (contentType b))))
   \<and> (list_all valid_header hi \<and> (m = ''GET'' \<or> m = ''HEAD'') \<longrightarrow>
        attached_body (fst (ApiRequest_new c p q hi m bo h)) = Inr None)
   \<and> (\<not> list_all valid_header hi
        \<or> (m \<noteq> ''GET'' \<and> m \<noteq> ''HEAD'' \<and> \<not> is_header_value (normalize_value (contentType b)))
      \<longrightarrow> fst (ApiRequest_new c p q hi m (Some b) h) = Inl TypeError)
   \<and> (list_all valid_header hi \<longrightarrow>
        content_type_of (fst (ApiRequest_new c p q hi ''POST'' (Some (JsonBody j)) h))
          = Inr (Some ''application/json''))"
proof -
  have a: "list_all valid_header hi \<and> is_header_value (normalize_value (contentType b))
      \<and> m \<noteq> ''GET'' \<and> m \<noteq> ''HEAD'' \<longrightarrow>
        attached_body (fst (ApiRequest_new c p q hi m (Some b) h)) = Inr (Some b)
        \<and> content_type_of (fst (ApiRequest_new c p q hi m (Some b) h))
            = Inr (Some (normalize_value (contentType b)))"
    by (simp add: new_with_body attached_body_def content_type_of_def Headers_get_def
        content_type_name get_after_set_first)
  have b: "list_all valid_header hi \<and> (m = ''GET'' \<or> m = ''HEAD'') \<longrightarrow>
        attached_body (fst (ApiRequest_new c p q hi m bo h)) = Inr None"
    using new_without_body [of bo m c p q hi h] by (auto simp: attached_body_def)
  have c: "\<not> list_all valid_header hi
        \<or> (m \<noteq> ''GET'' \<and> m \<noteq> ''HEAD'' \<and> \<not> is_header_value (normalize_value (contentType b)))
      \<longrightarrow> fst (ApiRequest_new c p q hi m (Some b) h) = Inl TypeError"
  proof (cases "m = ''GET'' \<or> m = ''HEAD''")
    case True
    then show ?thesis
      using new_without_body [of "Some b" m c p q hi h] by auto
  next
    case False
    then show ?thesis
      using new_with_body [of m c p q hi b h] by auto
  qed
  have d: "list_all valid_header hi \<longrightarrow>
        content_type_of (fst (ApiRequest_new c p q hi ''POST'' (Some (JsonBody j)) h))
          = Inr (Some ''application/json'')"
    by (simp add: new_with_body JsonBody_def json_content_type content_type_of_def
        Headers_get_def content_type_name get_after_set_first)
  from a b c d show ?thesis by (intro conjI)
qed

text \<open>
  C3 on a caller who has set \<^verbatim>\<open>Content-Type: text/plain\<close>: a \<^verbatim>\<open>PUT\<close> of CSV keeps its body
  and is sent as \<^verbatim>\<open>text/csv\<close>, a \<^verbatim>\<open>GET\<close> drops the body, and a \<^verbatim>\<open>POST\<close> of JSON is sent as
  \<^verbatim>\<open>application/json\<close>; on a caller whose header name has a space in it the constructor
  throws.
\<close>

theorem body_forces_content_type_witness:
  "content_type_of (fst (ApiRequest_new \<lparr>baseUrl = 0\<rparr> ''/tracks'' []
        [(''Content-Type'', ''text/plain'')] ''PUT''
        (Some \<lparr>contentType = ''text/csv'', payload = ''a,b''\<rparr>)
        (all_refs \<lparr>origin = ''http://h'', pathname = ''/v1'', query = []\<rparr>)))
     = Inr (Some ''text/csv'')
   \<and> attached_body (fst (ApiRequest_new \<lparr>baseUrl = 0\<rparr> ''/tracks'' []
        [(''Content-Type'', ''text/plain'')] ''PUT''
        (Some \<lparr>contentType = ''text/csv'', payload = ''a,b''\<rparr>)
        (all_refs \<lparr>origin = ''http://h'', pathname = ''/v1'', query = []\<rparr>)))
     = Inr (Some \<lparr>contentType = ''text/csv'', payload = ''a,b''\<rparr>)
   \<and> attached_body (fst (ApiRequest_new \<lparr>baseUrl = 0\<rparr> ''/tracks'' []
        [(''Content-Type'', ''text/plain'')] ''GET''
        (Some \<lparr>contentType = ''text/csv'', payload = ''a,b''\<rparr>)
        (all_refs \<lparr>origin = ''http://h'', pathname = ''/v1'', query = []\<rparr>)))
     = Inr None
   \<and> fst (ApiRequest_new \<lparr>baseUrl = 0\<rparr> ''/tracks'' []
        [(''bad name'', ''x'')] ''PUT''
        (Some \<lparr>contentType = ''text/csv'', payload = ''a,b''\<rparr>)
        (all_refs \<lparr>origin = ''http://h'', pathname = ''/v1'', query = []\<rparr>))
     = Inl TypeError
   \<and> content_type_of (fst (ApiRequest_new \<lparr>baseUrl = 0\<rparr> ''/tracks'' []
        [(''Content-Type'', ''text/plain'')] ''POST''
        (Some (JsonBody (JObj [(''title'', JStr ''Song'')])))
        (all_refs \<lparr>origin = ''http://h'', pathname = ''/v1'', query = []\<rparr>)))
     = Inr (Some ''application/json'')"
proof -
  let ?h = "all_refs \<lparr>origin = ''http://h'', pathname = ''/v1'', query = []\<rparr>"
  let ?csv = "\<lparr>contentType = ''text/csv'', payload = ''a,b''\<rparr>"
  have good: "list_all valid_header [(''Content-Type'', ''text/plain'')]"
    by (simp add: valid_header_def is_header_name_def token_char_def normalize_value_def
        http_whitespace_def is_header_value_def)
  have bad: "\<not> list_all valid_header [(''bad name'', ''x'')]"
    by (simp add: valid_header_def is_header_name_def token_char_def)
  have csv: "normalize_value ''text/csv'' = ''text/csv''" "is_header_value ''text/csv''"
    by (simp_all add: normalize_value_def http_whitespace_def is_header_value_def)
  note put = body_forces_content_type [of "[(''Content-Type'', ''text/plain'')]" ?csv "''PUT''"
      "\<lparr>baseUrl = 0\<rparr>" "''/tracks''" "[]" ?h "Some ?csv" "JObj [(''title'', JStr ''Song'')]"]
  note get = body_forces_content_type [of "[(''Content-Type'', ''text/plain'')]" ?csv "''GET''"
      "\<lparr>baseUrl = 0\<rparr>" "''/tracks''" "[]" ?h "Some ?csv" "JObj [(''title'', JStr ''Song'')]"]
  note refused = body_forces_content_type [of "[(''bad name'', ''x'')]" ?csv "''PUT''"
      "\<lparr>baseUrl = 0\<rparr>" "''/tracks''" "[]" ?h "Some ?csv" "JObj [(''title'', JStr ''Song'')]"]
  have "content_type_of (fst (ApiRequest_new \<lparr>baseUrl = 0\<rparr> ''/tracks'' []
        [(''Content-Type'', ''text/plain'')] ''PUT'' (Some ?csv) ?h)) = Inr (Some ''text/csv'')
      \<and> attached_body (fst (ApiRequest_new \<lparr>baseUrl = 0\<rparr> ''/tracks'' []
        [(''Content-Type'', ''text/plain'')] ''PUT'' (Some ?csv) ?h)) = Inr (Some ?csv)"
    using put [THEN conjunct1] good csv by simp
  moreover have "attached_body (fst (ApiRequest_new \<lparr>baseUrl = 0\<rparr> ''/tracks'' []
        [(''Content-Type'', ''text/plain'')] ''GET'' (Some ?csv) ?h)) = Inr None"
    using get [THEN conjunct2, THEN conjunct1] good by simp
  moreover have "fst (ApiRequest_new \<lparr>baseUrl = 0\<rparr> ''/tracks'' []
        [(''bad name'', ''x'')] ''PUT'' (Some ?csv) ?h) = Inl TypeError"
    using refused [THEN conjunct2, THEN conjunct2, THEN conjunct1] bad by simp
  moreover have "content_type_of (fst (ApiRequest_new \<lparr>baseUrl = 0\<rparr> ''/tracks'' []
        [(''Content-Type'', ''text/plain'')] ''POST''
        (Some (JsonBody (JObj [(''title'', JStr ''Song'')]))) ?h)) = Inr (Some ''application/json'')"
    using put [THEN conjunct2, THEN conjunct2, THEN conjunct2] good by simp
  ultimately show ?thesis by simp
qed

text \<open>
  C3 as stated fails: for a body whose declared content type is \<^verbatim>\<open>text/csv\<close> with a space
  on either side, the header is \<^verbatim>\<open>text/csv\<close> without the spaces, which is not the
  declared content type.
\<close>

theorem content_type_is_trimmed:
  "content_type_of (fst (ApiRequest_new \<lparr>baseUrl = 0\<rparr> ''/tracks'' [] [] ''PUT''
        (Some \<lparr>contentType = '' text/csv '', payload = ''a,b''\<rparr>)
        (all_refs \<lparr>origin = ''http://h'', pathname = ''/v1'', query = []\<rparr>)))
     = Inr (Some ''text/csv'')
   \<and> content_type_of (fst (ApiRequest_new \<lparr>baseUrl = 0\<rparr> ''/tracks'' [] [] ''PUT''
        (Some \<lparr>contentType = '' text/csv '', payload = ''a,b''\<rparr>)
        (all_refs \<lparr>origin = ''http://h'', pathname = ''/v1'', query = []\<rparr>)))
     \<noteq> Inr (Some (contentType \<lparr>contentType = '' text/csv '', payload = ''a,b''\<rparr>))"
proof -
  have csv: "normalize_value '' text/csv '' = ''text/csv''" "is_header_value ''text/csv''"
    by (simp_all add: normalize_value_def http_whitespace_def is_header_value_def)
  show ?thesis
    by (simp add: new_with_body csv content_type_of_def Headers_get_def content_type_name
        get_after_set_first)
qed

subsection \<open>The store\<close>

lemma new_returns_base_or_throws:
  "url_of (fst (ApiRequest_new c p q hi m bo h)) = Inr (baseUrl c)
   \<or> fst (ApiRequest_new c p q hi m bo h) = Inl TypeError"
proof (cases "bo = None \<or> m = ''GET'' \<or> m = ''HEAD''")
  case True
  then show ?thesis
    using new_without_body [of bo m c p q hi h] by (auto simp: url_of_def)
next
  case False
  then obtain b where "bo = Some b" "m \<noteq> ''GET''" "m \<noteq> ''HEAD''" by auto
  then show ?thesis
    using new_with_body [of m c p q hi b h] by (auto simp: url_of_def)
qed

lemma search_after_new:
  "search (snd (ApiRequest_new c p q hi m bo h) (baseUrl c)) =
     (if q = [] then [] else CHR ''?'' # usp_toString q)"
  by (simp add: ApiRequest_new_store search_def usp_toString_empty)

text \<open>
  C8. The composer returns the very reference it was given, and the store it leaves
  differs from the one it found only at that reference, whose pathname is now what the
  pathname setter makes of the composed string: the caller's URL object is changed in
  place. A request that the constructor returns has that reference as its URL; the
  constructor throws a \<^verbatim>\<open>TypeError\<close> otherwise. Returning or throwing, it has set the
  URL's query string to the serialisation of the caller's query parameters, whatever
  query string the URL had before: a question mark and the parameters, or nothing when
  there are none.
\<close>

theorem composer_mutates_base_in_place:
  "fst (concatUrl r p h) = r
   \<and> snd (concatUrl r p h) =
       h(r := (h r)\<lparr>pathname := parse_path (concatPath (pathname (h r)) p)\<rparr>)
   \<and> (url_of (fst (ApiRequest_new c p q hi m bo h)) = Inr (baseUrl c)
       \<or> fst (ApiRequest_new c p q hi m bo h) = Inl TypeError)
   \<and> snd (ApiRequest_new c p q hi m bo h) =
       h(baseUrl c := (h (baseUrl c))
           \<lparr>pathname := parse_path (concatPath (pathname (h (baseUrl c))) p),
            query := usp_toString q\<rparr>)
   \<and> search (snd (ApiRequest_new c p q hi m bo h) (baseUrl c)) =
       (if q = [] then [] else CHR ''?'' # usp_toString q)"
  using new_returns_base_or_throws [of c p q hi m bo h]
  by (simp add: concatUrl_fst concatUrl_snd ApiRequest_new_store search_def usp_toString_empty)

text \<open>
  C8 on a base URL that already carries the query string \<^verbatim>\<open>page=2\<close>: after the request for
  \<^verbatim>\<open>/tracks\<close> with \<^verbatim>\<open>limit=5\<close> the old query string is gone.
\<close>

theorem composer_mutates_base_in_place_witness:
  "search (snd (ApiRequest_new \<lparr>baseUrl = 0\<rparr> ''/tracks'' [(''limit'', ''5'')] [] ''GET'' None
       (all_refs \<lparr>origin = ''http://h'', pathname = ''/v1'', query = ''page=2''\<rparr>)) 0) = ''?limit=5''
   \<and> pathname (snd (ApiRequest_new \<lparr>baseUrl = 0\<rparr> ''/tracks'' [(''limit'', ''5'')] [] ''GET'' None
       (all_refs \<lparr>origin = ''http://h'', pathname = ''/v1'', query = ''page=2''\<rparr>)) 0) = ''/v1/tracks''"
proof -
  have plain: "plain_path ''/v1/tracks''"
    by (simp add: plain_path_def startsWith_def path_percent_encode_set_def backslash_def
        is_separator_def single_dot_def double_dot_def lower_def lower_char_def)
  have cp: "concatPath ''/v1'' ''/tracks'' = ''/v1/tracks''"
    by (simp add: concatPath_def endsWith_def)
  have q: "usp_toString [(''limit'', ''5'')] = ''limit=5''"
    by (simp add: usp_toString_def usp_pair_def urlencode_def urlencode_byte_def
        urlencoded_safe_def)
  show ?thesis
    using composer_mutates_base_in_place [where r = 0 and c = "\<lparr>baseUrl = 0\<rparr>"
      and p = "''/tracks''" and q = "[(''limit'', ''5'')]" and hi = "[]" and m = "''GET''"
      and bo = None
      and h = "all_refs \<lparr>origin = ''http://h'', pathname = ''/v1'', query = ''page=2''\<rparr>"]
      parse_path_plain [OF plain] cp q
    by (simp add: all_refs_def search_def)
qed

section \<open>What the endpoint methods leave in the store\<close>

lemma listArtists_store:
  "snd (listArtists net num_toString c limit page h) =
     h(baseUrl c := (h (baseUrl c))
         \<lparr>pathname := parse_path (concatPath (pathname (h (baseUrl c))) ''/artists''),
          query := usp_toString (list_params num_toString limit page None)\<rparr>)"
  by (simp add: listArtists_def Let_def split_def ApiRequest_new_store list_params_def
      no_query_def split: option.splits)

lemma listArtistAlbums_store:
  "snd (listArtistAlbums net num_toString c i limit page h) =
     h(baseUrl c := (h (baseUrl c))
         \<lparr>pathname := parse_path (concatPath (pathname (h (baseUrl c)))
                        (''/artists/'' @ i @ ''/albums'')),
          query := usp_toString (list_params num_toString limit page None)\<rparr>)"
  by (simp add: listArtistAlbums_def Let_def split_def ApiRequest_new_store list_params_def
      no_query_def split: option.splits)

lemma listArtistTracks_store:
  "snd (listArtistTracks net num_toString c i limit page h) =
     h(baseUrl c := (h (baseUrl c))
         \<lparr>pathname := parse_path (concatPath (pathname (h (baseUrl c)))
                        (''/artists/'' @ i @ ''/tracks'')),
          query := usp_toString (list_params num_toString limit page None)\<rparr>)"
  by (simp add: listArtistTracks_def Let_def split_def ApiRequest_new_store list_params_def
      no_query_def split: option.splits)

lemma listAlbums_store:
  "snd (listAlbums net num_toString c limit page h) =
     h(baseUrl c := (h (baseUrl c))
         \<lparr>pathname := parse_path (concatPath (pathname (h (baseUrl c))) ''/albums''),
          query := usp_toString (list_params num_toString limit page None)\<rparr>)"
  by (simp add: listAlbums_def Let_def split_def ApiRequest_new_store list_params_def
      no_query_def split: option.splits)

lemma listAlbumTracks_store:
  "snd (listAlbumTracks net num_toString c i limit page h) =
     h(baseUrl c := (h (baseUrl c))
         \<lparr>pathname := parse_path (concatPath (pathname (h (baseUrl c)))
                        (''/albums/'' @ i @ ''/tracks'')),
          query := usp_toString (list_params num_toString limit page None)\<rparr>)"
  by (simp add: listAlbumTracks_def Let_def split_def ApiRequest_new_store list_params_def
      no_query_def split: option.splits)

lemma listTracks_store:
  "snd (listTracks net num_toString c limit page sort_by h) =
     h(baseUrl c := (h (baseUrl c))
         \<lparr>pathname := parse_path (concatPath (pathname (h (baseUrl c))) ''/tracks''),
          query := usp_toString (list_params num_toString limit page sort_by)\<rparr>)"
  by (simp add: listTracks_def Let_def split_def ApiRequest_new_store list_params_def
      no_query_def split: option.splits)

lemma getTrack_store:
  "snd (getTrack net c i h) =
     h(baseUrl c := (h (baseUrl c))
         \<lparr>pathname := parse_path (concatPath (pathname (h (baseUrl c))) (''/tracks/'' @ i)),
          query := []\<rparr>)"
  by (simp add: getTrack_def Let_def split_def ApiRequest_new_store no_query_def usp_toString_def)

lemma getArtist_store:
  "snd (getArtist net c i h) =
     h(baseUrl c := (h (baseUrl c))
         \<lparr>pathname := parse_path (concatPath (pathname (h (baseUrl c))) (''/artists/'' @ i)),
          query := []\<rparr>)"
  by (simp add: getArtist_def Let_def split_def ApiRequest_new_store no_query_def usp_toString_def)

lemma fold_usp_append:
  "fold (\<lambda>i ps. usp_append ''id'' i ps) ids acc = acc @ map (\<lambda>i. (''id'', i)) ids"
  by (induction ids arbitrary: acc) (simp_all add: usp_append_def)

lemma getArtists_store:
  "snd (getArtists net c ids h) =
     h(baseUrl c := (h (baseUrl c))
         \<lparr>pathname := parse_path (concatPath (pathname (h (baseUrl c))) ''/artists''),
          query := usp_toString (map (\<lambda>i. (''id'', i)) ids)\<rparr>)"
  by (simp add: getArtists_def Let_def split_def ApiRequest_new_store fold_usp_append no_query_def)

subsection \<open>One base URL for every request\<close>

text \<open>
  C10, as the code has it. Every request constructed from a client has the client's own
  base URL object as its URL. Constructing a request with path \<open>pa\<close> leaves in that
  object the pathname that the setter makes of the base's path composed with \<open>pa\<close>, and
  a second request with path \<open>pb\<close> on the same client composes \<open>pb\<close> onto that
  pathname. When the composed strings are paths of plain segments, the second request's
  path is the base's path followed by \<open>pa\<close> and then \<open>pb\<close>; a segment \<^verbatim>\<open>..\<close> is
  resolved by the setter and takes the segment before it away. At the public methods:
  after listing the artists, the request for a track is composed onto a base path that
  already holds \<^verbatim>\<open>/artists\<close>.
\<close>

theorem base_url_shared_by_requests:
  "(url_of (fst (ApiRequest_new c pa qa hia ma ba h)) = Inr (baseUrl c)
      \<or> fst (ApiRequest_new c pa qa hia ma ba h) = Inl TypeError)
   \<and> (url_of (fst (ApiRequest_new c pb qb hib mb bb (snd (ApiRequest_new c pa qa hia ma ba h))))
        = Inr (baseUrl c)
      \<or> fst (ApiRequest_new c pb qb hib mb bb (snd (ApiRequest_new c pa qa hia ma ba h)))
        = Inl TypeError)
   \<and> pathname (snd (ApiRequest_new c pa qa hia ma ba h) (baseUrl c))
       = parse_path (concatPath (pathname (h (baseUrl c))) pa)
   \<and> pathname (snd (ApiRequest_new c pb qb hib mb bb (snd (ApiRequest_new c pa qa hia ma ba h)))
                 (baseUrl c))
       = parse_path (concatPath (parse_path (concatPath (pathname (h (baseUrl c))) pa)) pb)
   \<and> (plain_path (concatPath (pathname (h (baseUrl c))) pa)
       \<and> plain_path (concatPath (concatPath (pathname (h (baseUrl c))) pa) pb) \<longrightarrow>
       pathname (snd (ApiRequest_new c pb qb hib mb bb (snd (ApiRequest_new c pa qa hia ma ba h)))
                 (baseUrl c))
       = concatPath (concatPath (pathname (h (baseUrl c))) pa) pb)
   \<and> pathname (snd (getTrack net_get c i (snd (listArtists net_list num_toString c limit page h)))
                 (baseUrl c))
       = parse_path (concatPath (parse_path (concatPath (pathname (h (baseUrl c))) ''/artists''))
                       (''/tracks/'' @ i))"
  using new_returns_base_or_throws [of c pa qa hia ma ba h]
    new_returns_base_or_throws [of c pb qb hib mb bb "snd (ApiRequest_new c pa qa hia ma ba h)"]
  by (simp add: ApiRequest_new_store getTrack_store listArtists_store parse_path_plain)

lemma plain_examples:
  "plain_path ''/v1/artists''" "plain_path ''/v1/artists/tracks/t1''"
  by (simp_all add: plain_path_def startsWith_def path_percent_encode_set_def backslash_def
      is_separator_def single_dot_def double_dot_def lower_def lower_char_def)

text \<open>
  C10 on a client at \<^verbatim>\<open>http://h/v1\<close>: the track \<^verbatim>\<open>t1\<close> is asked for at
  \<^verbatim>\<open>/v1/artists/tracks/t1\<close> once the artists have been listed.
\<close>

theorem base_url_shared_by_requests_witness:
  "pathname (snd (getTrack unreachable \<lparr>baseUrl = 0\<rparr> ''t1''
       (snd (listArtists unreachable toString \<lparr>baseUrl = 0\<rparr> None None
          (all_refs \<lparr>origin = ''http://h'', pathname = ''/v1'', query = []\<rparr>)))) 0)
     = ''/v1/artists/tracks/t1''
   \<and> pathname (snd (ApiRequest_new \<lparr>baseUrl = 0\<rparr> ''/tracks/t1'' [] [] ''GET'' None
       (snd (ApiRequest_new \<lparr>baseUrl = 0\<rparr> ''/artists'' [] [] ''GET'' None
          (all_refs \<lparr>origin = ''http://h'', pathname = ''/v1'', query = []\<rparr>)))) 0)
     = ''/v1/artists/tracks/t1''"
proof -
  let ?h = "all_refs \<lparr>origin = ''http://h'', pathname = ''/v1'', query = []\<rparr>"
  have cp: "concatPath ''/v1'' ''/artists'' = ''/v1/artists''"
    "concatPath ''/v1/artists'' ''/tracks/t1'' = ''/v1/artists/tracks/t1''"
    by (simp_all add: concatPath_def endsWith_def)
  note inst = base_url_shared_by_requests [where c = "\<lparr>baseUrl = 0\<rparr>" and h = ?h
      and pa = "''/artists''" and pb = "''/tracks/t1''" and qa = "[]" and qb = "[]"
      and hia = "[]" and hib = "[]" and ma = "''GET''" and mb = "''GET''" and ba = None
      and bb = None and net_get = unreachable and i = "''t1''" and net_list = unreachable
      and num_toString = toString and limit = None and page = None]
  have "pathname (snd (getTrack unreachable \<lparr>baseUrl = 0\<rparr> ''t1''
       (snd (listArtists unreachable toString \<lparr>baseUrl = 0\<rparr> None None ?h))) 0)
     = ''/v1/artists/tracks/t1''"
    using inst [THEN conjunct2, THEN conjunct2, THEN conjunct2, THEN conjunct2, THEN conjunct2]
      cp plain_examples parse_path_plain
    by (simp add: all_refs_def)
  moreover have "pathname (snd (ApiRequest_new \<lparr>baseUrl = 0\<rparr> ''/tracks/t1'' [] [] ''GET'' None
       (snd (ApiRequest_new \<lparr>baseUrl = 0\<rparr> ''/artists'' [] [] ''GET'' None ?h))) 0)
     = ''/v1/artists/tracks/t1''"
    using inst [THEN conjunct2, THEN conjunct2, THEN conjunct2, THEN conjunct2, THEN conjunct1]
      cp plain_examples
    by (simp add: all_refs_def)
  ultimately show ?thesis by simp
qed

lemma parse_dot_dot: "parse_path ''/v1/artists/artists/..'' = ''/v1/artists/''"
  by (simp add: parse_path_def tab_or_newline_def is_separator_def backslash_def path_encode_def
      path_percent_encode_set_def single_dot_def double_dot_def lower_def lower_char_def)

text \<open>
  C10 as stated fails: on a client at \<^verbatim>\<open>http://h/v1\<close>, once the artists have been listed
  the request for the artist \<^verbatim>\<open>..\<close> has the path \<^verbatim>\<open>/v1/artists/\<close>, which does not hold the
  second request's path \<^verbatim>\<open>/artists/..\<close> after the first.
\<close>

theorem second_path_swallowed:
  "pathname (snd (getArtist unreachable \<lparr>baseUrl = 0\<rparr> ''..''
       (snd (listArtists unreachable toString \<lparr>baseUrl = 0\<rparr> None None
          (all_refs \<lparr>origin = ''http://h'', pathname = ''/v1'', query = []\<rparr>)))) 0)
     = ''/v1/artists/''
   \<and> pathname (snd (getArtist unreachable \<lparr>baseUrl = 0\<rparr> ''..''
       (snd (listArtists unreachable toString \<lparr>baseUrl = 0\<rparr> None None
          (all_refs \<lparr>origin = ''http://h'', pathname = ''/v1'', query = []\<rparr>)))) 0)
     \<noteq> concatPath (concatPath ''/v1'' ''/artists'') ''/artists/..''"
proof -
  have cp: "concatPath ''/v1'' ''/artists'' = ''/v1/artists''"
    "concatPath ''/v1/artists'' ''/artists/..'' = ''/v1/artists/artists/..''"
    by (simp_all add: concatPath_def endsWith_def)
  show ?thesis
    using parse_path_plain [OF plain_examples(1)] parse_dot_dot cp
    by (simp add: getArtist_store listArtists_store all_refs_def)
qed

section \<open>The response classifier\<close>

lemma from_ok:
  "ok rs \<Longrightarrow> json rs = Some b \<Longrightarrow> ApiResponse_from rq rs = Inr \<lparr>req = rq, res = rs, body = b\<rparr>"
  by (simp add: ApiResponse_from_def)

text \<open>
  C4. For a response whose \<^verbatim>\<open>ok\<close> flag is true and whose body parses as JSON, the
  classifier throws nothing and returns the envelope of the originating request, the raw
  response and the parsed body, the body exactly as parsed.
\<close>

theorem ok_returns_parsed_body:
  "ok rs \<Longrightarrow> json rs = Some b \<Longrightarrow> ApiResponse_from rq rs = Inr \<lparr>req = rq, res = rs, body = b\<rparr>"
  by (simp add: ApiResponse_from_def)

text \<open>C4 on the body \<^verbatim>\<open>{"id":"t1","title":"Song"}\<close>.\<close>

theorem ok_returns_parsed_body_witness:
  "ApiResponse_from
     \<lparr>api = \<lparr>baseUrl = 0\<rparr>, url = 0, headers = [], req_method = ''GET'', reqBody = None\<rparr>
     \<lparr>ok = True, status = 200,
      json = Some (JObj [(''id'', JStr ''t1''), (''title'', JStr ''Song'')])\<rparr>
   = Inr \<lparr>req = \<lparr>api = \<lparr>baseUrl = 0\<rparr>, url = 0, headers = [], req_method = ''GET'', reqBody = None\<rparr>,
          res = \<lparr>ok = True, status = 200,
                 json = Some (JObj [(''id'', JStr ''t1''), (''title'', JStr ''Song'')])\<rparr>,
          body = JObj [(''id'', JStr ''t1''), (''title'', JStr ''Song'')]\<rparr>"
  using ok_returns_parsed_body
    [of "\<lparr>ok = True, status = 200,
          json = Some (JObj [(''id'', JStr ''t1''), (''title'', JStr ''Song'')])\<rparr>"
        "JObj [(''id'', JStr ''t1''), (''title'', JStr ''Song'')]"
        "\<lparr>api = \<lparr>baseUrl = 0\<rparr>, url = 0, headers = [], req_method = ''GET'', reqBody = None\<rparr>"]
  by simp

text \<open>
  C5. For a response whose \<^verbatim>\<open>ok\<close> flag is false and whose body is an object with an
  \<^verbatim>\<open>error\<close> property that is an object with a \<^verbatim>\<open>message\<close> property holding the string \<open>m\<close>,
  the classifier throws the API error that carries the envelope, and its message is \<open>m\<close>.
\<close>

theorem recognized_error_message:
  assumes "\<not> ok rs" and "json rs = Some (JObj kvs)"
    and "map_of kvs ''error'' = Some (JObj evs)" and "map_of evs ''message'' = Some (JStr m)"
  shows "ApiResponse_from rq rs = Inl (ApiError \<lparr>req = rq, res = rs, body = JObj kvs\<rparr> m)"
proof -
  have e: "''error'' \<in> set (map fst kvs)"
    using map_of_SomeD [OF assms(3)] by force
  have k: "''message'' \<in> set (map fst evs)"
    using map_of_SomeD [OF assms(4)] by force
  have "is_error_body (JObj kvs) = Inr True"
    using e k assms(3) by (simp add: is_error_body_def)
  moreover have "ApiError_new \<lparr>req = rq, res = rs, body = JObj kvs\<rparr>
      = ApiError \<lparr>req = rq, res = rs, body = JObj kvs\<rparr> m"
    using assms(3,4) by (simp add: ApiError_new_def error_message_def)
  ultimately show ?thesis
    using assms(1,2) by (simp add: ApiResponse_from_def)
qed

text \<open>C5 on the status 404 and the body \<^verbatim>\<open>{"error":{"message":"not found"}}\<close>.\<close>

theorem recognized_error_message_witness:
  "ApiResponse_from
     \<lparr>api = \<lparr>baseUrl = 0\<rparr>, url = 0, headers = [], req_method = ''GET'', reqBody = None\<rparr>
     \<lparr>ok = False, status = 404,
      json = Some (JObj [(''error'', JObj [(''message'', JStr ''not found'')])])\<rparr>
   = Inl (ApiError
       \<lparr>req = \<lparr>api = \<lparr>baseUrl = 0\<rparr>, url = 0, headers = [], req_method = ''GET'', reqBody = None\<rparr>,
        res = \<lparr>ok = False, status = 404,
               json = Some (JObj [(''error'', JObj [(''message'', JStr ''not found'')])])\<rparr>,
        body = JObj [(''error'', JObj [(''message'', JStr ''not found'')])]\<rparr>
       ''not found'')"
  using recognized_error_message
    [of "\<lparr>ok = False, status = 404,
          json = Some (JObj [(''error'', JObj [(''message'', JStr ''not found'')])])\<rparr>"
        "[(''error'', JObj [(''message'', JStr ''not found'')])]"
        "[(''message'', JStr ''not found'')]" "''not found''"
        "\<lparr>api = \<lparr>baseUrl = 0\<rparr>, url = 0, headers = [], req_method = ''GET'', reqBody = None\<rparr>"]
  by simp

text \<open>
  What the classifier does with every body of a response whose \<^verbatim>\<open>ok\<close> flag is false.
  The \<^verbatim>\<open>in\<close> operator comes before the \<^verbatim>\<open>typeof\<close> test, so a body that is not an object
  or an array ends in a \<^verbatim>\<open>TypeError\<close>, and so does an \<^verbatim>\<open>error\<close> property that is neither.
\<close>

lemma from_not_ok:
  assumes "\<not> ok rs" and "json rs = Some b"
  shows "ApiResponse_from rq rs =
     (case b of
        JObj kvs \<Rightarrow>
          (case map_of kvs ''error'' of
             None \<Rightarrow> Inl (unknown_error (status rs) b)
           | Some (JObj evs) \<Rightarrow>
               (case map_of evs ''message'' of
                  None \<Rightarrow> Inl (unknown_error (status rs) b)
                | Some v \<Rightarrow> Inl (ApiError \<lparr>req = rq, res = rs, body = b\<rparr> (js_ToString v)))
           | Some (JArr xs) \<Rightarrow> Inl (unknown_error (status rs) b)
           | Some v \<Rightarrow> Inl TypeError)
      | JArr xs \<Rightarrow> Inl (unknown_error (status rs) b)
      | _ \<Rightarrow> Inl TypeError)"
proof (cases b)
  case (JObj kvs)
  show ?thesis
  proof (cases "map_of kvs ''error''")
    case None
    then have "''error'' \<notin> set (map fst kvs)"
      by (simp add: map_of_eq_None_iff)
    then show ?thesis
      using assms JObj None by (simp add: ApiResponse_from_def is_error_body_def)
  next
    case (Some e)
    then have e: "''error'' \<in> set (map fst kvs)"
      using map_of_SomeD [OF Some] by force
    show ?thesis
    proof (cases e)
      case (JObj evs)
      show ?thesis
      proof (cases "map_of evs ''message''")
        case None
        then have "''message'' \<notin> set (map fst evs)"
          by (simp add: map_of_eq_None_iff)
        then show ?thesis
          using assms \<open>b = JObj kvs\<close> Some JObj None e
          by (simp add: ApiResponse_from_def is_error_body_def)
      next
        case (Some v)
        then have "''message'' \<in> set (map fst evs)"
          using map_of_SomeD [OF Some] by force
        then show ?thesis
          using assms \<open>b = JObj kvs\<close> \<open>map_of kvs ''error'' = Some e\<close> JObj Some e
          by (simp add: ApiResponse_from_def is_error_body_def ApiError_new_def error_message_def)
      qed
    qed (use assms \<open>b = JObj kvs\<close> Some e in
        \<open>simp_all add: ApiResponse_from_def is_error_body_def\<close>)
  qed
qed (use assms in \<open>simp_all add: ApiResponse_from_def is_error_body_def\<close>)

text \<open>
  C2 asks for the unrecognized-error failure, with the status code and the serialised
  body, on every body that has not the error shape. On the status 502 with the JSON
  string \<^verbatim>\<open>"Bad Gateway"\<close> as body the classifier throws a \<^verbatim>\<open>TypeError\<close> instead.
\<close>

theorem from_throws_TypeError:
  "ApiResponse_from
     \<lparr>api = \<lparr>baseUrl = 0\<rparr>, url = 0, headers = [], req_method = ''GET'', reqBody = None\<rparr>
     \<lparr>ok = False, status = 502, json = Some (JStr ''Bad Gateway'')\<rparr> = Inl TypeError
   \<and> Inl TypeError \<noteq> (Inl (unknown_error 502 (JStr ''Bad Gateway'')) :: js_error + ApiResponse)"
  by (simp add: ApiResponse_from_def is_error_body_def unknown_error_def)

section \<open>The query string of the list operations\<close>

lemma list_params_keys:
  "map (\<lambda>kv. urlencode (fst kv)) (list_params num_toString limit page sort_by) =
     (case limit of None \<Rightarrow> [] | Some l \<Rightarrow> [''limit'']) @
     (case page of None \<Rightarrow> [] | Some p \<Rightarrow> [''page'']) @
     (case sort_by of None \<Rightarrow> [] | Some s \<Rightarrow> [''sort''])"
  by (simp add: list_params_def urlencode_names split: option.splits)

lemma list_query_holds:
  assumes "query u = usp_toString (list_params num_toString limit page sort_by)"
  shows "list_query_as_supplied num_toString limit page sort_by u"
proof -
  have keys: "query_keys (query u) =
     (case limit of None \<Rightarrow> [] | Some l \<Rightarrow> [''limit'']) @
     (case page of None \<Rightarrow> [] | Some p \<Rightarrow> [''page'']) @
     (case sort_by of None \<Rightarrow> [] | Some s \<Rightarrow> [''sort''])"
    using assms by (simp add: query_keys_usp_toString list_params_keys)
  have l: "(''limit'' \<in> set (query_keys (query u))) = (limit \<noteq> None)"
    unfolding keys by (cases limit; cases page; cases sort_by; simp)
  have p: "(''page'' \<in> set (query_keys (query u))) = (page \<noteq> None)"
    unfolding keys by (cases limit; cases page; cases sort_by; simp)
  have e: "limit = None \<and> page = None \<and> sort_by = None \<longrightarrow> search u = []"
    using assms by (simp add: search_def list_params_def usp_toString_def)
  show ?thesis
    unfolding list_query_as_supplied_def using assms l p e by simp
qed

text \<open>
  C6, as the code has it. The URL of the request of every list operation has as its
  query string the serialisation of exactly the arguments that were supplied: a
  \<^verbatim>\<open>limit\<close> key stands in it if and only if a limit was given (zero included), a \<^verbatim>\<open>page\<close>
  key if and only if a page was given, each with what the platform writes for the number,
  and it is empty when limit and page are left out and, for the track listing, the sort
  is left out too.
\<close>

theorem list_query_only_supplied:
  "list_query_as_supplied num_toString limit page None (snd (listArtists net num_toString c limit page h) (baseUrl c))
   \<and> list_query_as_supplied num_toString limit page None (snd (listArtistAlbums net num_toString c i limit page h) (baseUrl c))
   \<and> list_query_as_supplied num_toString limit page None (snd (listArtistTracks net num_toString c i limit page h) (baseUrl c))
   \<and> list_query_as_supplied num_toString limit page None (snd (listAlbums net num_toString c limit page h) (baseUrl c))
   \<and> list_query_as_supplied num_toString limit page None (snd (listAlbumTracks net num_toString c i limit page h) (baseUrl c))
   \<and> list_query_as_supplied num_toString limit page sort_by (snd (listTracks net num_toString c limit page sort_by h) (baseUrl c))"
  by (simp add: list_query_holds listArtists_store listArtistAlbums_store listArtistTracks_store
      listAlbums_store listAlbumTracks_store listTracks_store)

text \<open>
  C6 on a limit of zero, which is serialised as \<^verbatim>\<open>limit=0\<close>, and on a track listing with
  no argument at all, whose query string is empty even when the base URL had one.
\<close>

theorem list_query_only_supplied_witness:
  "query (snd (listArtists unreachable toString \<lparr>baseUrl = 0\<rparr> (Some (safe 0)) None
       (all_refs \<lparr>origin = ''http://h'', pathname = ''/v1'', query = []\<rparr>)) 0) = ''limit=0''
   \<and> search (snd (listTracks unreachable toString \<lparr>baseUrl = 0\<rparr> None None None
       (all_refs \<lparr>origin = ''http://h'', pathname = ''/v1'', query = ''page=7''\<rparr>)) 0) = []"
  using list_query_only_supplied [where num_toString = toString and limit = "Some (safe 0)"
      and page = None and net = unreachable and c = "\<lparr>baseUrl = 0\<rparr>"
      and h = "all_refs \<lparr>origin = ''http://h'', pathname = ''/v1'', query = []\<rparr>"
      and i = "[]" and sort_by = None]
    list_query_only_supplied [where num_toString = toString and limit = None
      and page = None and net = unreachable and c = "\<lparr>baseUrl = 0\<rparr>"
      and h = "all_refs \<lparr>origin = ''http://h'', pathname = ''/v1'', query = ''page=7''\<rparr>"
      and i = "[]" and sort_by = None]
  by (simp add: list_query_as_supplied_def list_params_def usp_toString_def usp_pair_def
      urlencode_def urlencode_byte_def urlencoded_safe_def toString_def safe_inverse
      digit_char_def)

text \<open>
  C6 as stated fails: the track listing called with limit and page left out and the sort
  \<^verbatim>\<open>title:asc\<close> has the query string \<^verbatim>\<open>?sort=title%3Aasc\<close>, which is not empty.
\<close>

theorem listTracks_sort_query_not_empty:
  "search (snd (listTracks unreachable toString \<lparr>baseUrl = 0\<rparr> None None (Some ''title:asc'')
       (all_refs \<lparr>origin = ''http://h'', pathname = ''/v1'', query = []\<rparr>)) 0)
     = ''?sort=title%3Aasc''
   \<and> search (snd (listTracks unreachable toString \<lparr>baseUrl = 0\<rparr> None None (Some ''title:asc'')
       (all_refs \<lparr>origin = ''http://h'', pathname = ''/v1'', query = []\<rparr>)) 0) \<noteq> []"
  by (simp add: listTracks_store search_def list_params_def usp_toString_def usp_pair_def
      urlencode_def urlencode_byte_def urlencoded_safe_def percent_encode_def
      percent_byte_def utf8_bytes_def hex_digit_def)

subsection \<open>Several identifiers\<close>

text \<open>
  C7. The request for several artists has as its query string one \<^verbatim>\<open>id=\<close> parameter for
  each identifier, in the order of the list and joined by \<^verbatim>\<open>&\<close>, each identifier in
  its form-urlencoded writing; read back, the query string has as many keys as there are
  identifiers, every one of them \<^verbatim>\<open>id\<close>.
\<close>

theorem getArtists_repeats_id:
  "query (snd (getArtists net c ids h) (baseUrl c))
     = intercalate ''&'' (map (\<lambda>i. ''id='' @ urlencode i) ids)
   \<and> query_keys (query (snd (getArtists net c ids h) (baseUrl c))) = map (\<lambda>i. ''id'') ids"
proof -
  have "map usp_pair (map (\<lambda>i. (''id'', i)) ids) = map (\<lambda>i. ''id='' @ urlencode i) ids"
    by (simp add: usp_pair_def urlencode_names)
  then have "usp_toString (map (\<lambda>i. (''id'', i)) ids)
      = intercalate ''&'' (map (\<lambda>i. ''id='' @ urlencode i) ids)"
    by (simp only: usp_toString_def)
  moreover have "query_keys (usp_toString (map (\<lambda>i. (''id'', i)) ids)) = map (\<lambda>i. ''id'') ids"
    by (simp add: query_keys_usp_toString urlencode_names comp_def)
  ultimately show ?thesis
    by (simp add: getArtists_store)
qed

text \<open>C7 on the identifiers \<^verbatim>\<open>a\<close>, \<^verbatim>\<open>b\<close>, \<^verbatim>\<open>c\<close>.\<close>

theorem getArtists_repeats_id_witness:
  "query (snd (getArtists unreachable \<lparr>baseUrl = 0\<rparr> [''a'', ''b'', ''c'']
       (all_refs \<lparr>origin = ''http://h'', pathname = ''/v1'', query = []\<rparr>)) 0) = ''id=a&id=b&id=c''"
  using getArtists_repeats_id [of unreachable "\<lparr>baseUrl = 0\<rparr>" "[''a'', ''b'', ''c'']"
      "all_refs \<lparr>origin = ''http://h'', pathname = ''/v1'', query = []\<rparr>"]
  by (simp add: urlencode_def urlencode_byte_def urlencoded_safe_def)

section \<open>Pages\<close>

lemma new_default:
  "fst (ApiRequest_new c p q no_headers GET None h) =
     Inr \<lparr>api = c, url = baseUrl c, headers = [], req_method = ''GET'', reqBody = None\<rparr>"
  using new_without_body [of None "''GET''" c p q "[]" h]
  by (simp add: no_headers_def GET_def)

lemma ApiClient_fetch_answer:
  "ok rs \<Longrightarrow> json rs = Some b \<Longrightarrow>
     ApiClient_fetch (answer rs) r h = Inr \<lparr>req = r, res = rs, body = b\<rparr>"
  by (simp add: ApiClient_fetch_def ApiRequest_fetch_def answer_def from_ok)

lemma returns_unvalidated_fetch:
  "ok rs \<Longrightarrow> json rs = Some b \<Longrightarrow>
     returns_unvalidated b
       (with_request (fst (ApiRequest_new c p q no_headers GET None h))
          (\<lambda>rq. ApiClient_fetch (answer rs) rq h1), h2)"
  by (simp add: returns_unvalidated_def new_default with_request_def ApiClient_fetch_answer)

text \<open>
  C9, as the code has it. When the server answers a list operation with a response whose
  \<^verbatim>\<open>ok\<close> flag is true, the operation returns the parsed body of that response as its page,
  unchanged and unchecked: the invariant of a page holds of the returned value exactly
  when it holds of the body the server sent.
\<close>

theorem list_returns_server_body:
  assumes "ok rs" and "json rs = Some b"
  shows "returns_unvalidated b (listArtists (answer rs) num_toString c limit page h)
    \<and> returns_unvalidated b (getArtists (answer rs) c ids h)
    \<and> returns_unvalidated b (listArtistAlbums (answer rs) num_toString c i limit page h)
    \<and> returns_unvalidated b (listArtistTracks (answer rs) num_toString c i limit page h)
    \<and> returns_unvalidated b (listAlbums (answer rs) num_toString c limit page h)
    \<and> returns_unvalidated b (listAlbumTracks (answer rs) num_toString c i limit page h)
    \<and> returns_unvalidated b (listTracks (answer rs) num_toString c limit page sort_by h)"
  using assms
  by (simp add: listArtists_def getArtists_def listArtistAlbums_def listArtistTracks_def
      listAlbums_def listAlbumTracks_def listTracks_def Let_def split_def
      returns_unvalidated_fetch)

text \<open>C9 on a server that answers the album listing with the body \<^verbatim>\<open>{"page":1}\<close>.\<close>

theorem list_returns_server_body_witness:
  "returns_unvalidated (JObj [(''page'', JNum (safe 1))])
     (listAlbums
        (answer \<lparr>ok = True, status = 200, json = Some (JObj [(''page'', JNum (safe 1))])\<rparr>)
        toString \<lparr>baseUrl = 0\<rparr> None None
        (all_refs \<lparr>origin = ''http://h'', pathname = ''/v1'', query = []\<rparr>))"
  using list_returns_server_body
    [where rs = "\<lparr>ok = True, status = 200, json = Some (JObj [(''page'', JNum (safe 1))])\<rparr>"
      and b = "JObj [(''page'', JNum (safe 1))]" and num_toString = toString
      and c = "\<lparr>baseUrl = 0\<rparr>" and limit = None and page = None
      and h = "all_refs \<lparr>origin = ''http://h'', pathname = ''/v1'', query = []\<rparr>"]
  by simp

text \<open>
  C9 as stated fails: when the server answers the artist listing with a page that has
  more resources than its limit, a \<^verbatim>\<open>previous\<close> link on page one and no \<^verbatim>\<open>next\<close> link
  before the last page, that very page is what the operation returns.
\<close>

theorem list_returns_invalid_page:
  "returned_body (listArtists (answer \<lparr>ok = True, status = 200, json = Some overfull_page\<rparr>)
       toString \<lparr>baseUrl = 0\<rparr> None None
       (all_refs \<lparr>origin = ''http://h'', pathname = ''/v1'', query = []\<rparr>)) = Some overfull_page
   \<and> \<not> page_invariant overfull_page"
proof -
  have "\<not> page_invariant overfull_page"
    by (simp add: page_invariant_def overfull_page_def safe_inverse)
  then show ?thesis
    by (simp add: returned_body_def listArtists_def Let_def split_def new_default
        with_request_def ApiClient_fetch_answer)
qed

end
